theory Spec2Isabelle
  imports
    Complex_Main
    "HOL-Library.Signed_Division"
    "HOL-Library.AList"
    "HOL-Library.Sublist"
    "HOL-Library.Char_ord"
    "HOL-Library.List_Lexorder"
begin

section \<open>Go values used by the search client\<close>

subsection \<open>Machine integers, durations and instants\<close>

text \<open>
  Go's \<open>int\<close> and \<open>time.Duration\<close> are 64-bit two's complement integers on the
  platforms the program targets. They are modelled as \<open>int\<close>; every arithmetic
  operation of the source whose result can leave the 64-bit range is wrapped
  with \<open>wrap64\<close>. Integer division in Go truncates towards zero, which is
  \<open>sdiv\<close>; division by zero panics and is a branch of the model.

  A \<open>time.Time\<close> is modelled as a number of nanoseconds on the clock that
  \<open>time.Now\<close> reads. \<open>Time.Sub\<close> saturates at the smallest and largest
  \<open>Duration\<close>.
\<close>

definition wrap64 :: "int \<Rightarrow> int" where
  "wrap64 x = (x + 2 ^ 63) mod 2 ^ 64 - 2 ^ 63"

definition maxDuration :: int where
  "maxDuration = 2 ^ 63 - 1"

definition minDuration :: int where
  "minDuration = - (2 ^ 63)"

definition Second :: int where
  "Second = 1000000000"

definition Millisecond :: int where
  "Millisecond = 1000000"

definition time_Sub :: "int \<Rightarrow> int \<Rightarrow> int" where
  "time_Sub t u =
     (let d = t - u in
      if maxDuration < d then maxDuration
      else if d < minDuration then minDuration
      else d)"

subsection \<open>Decimal rendering (\<open>strconv.Itoa\<close>, the \<open>%d\<close> verb)\<close>

definition digit_char :: "nat \<Rightarrow> char" where
  "digit_char d = char_of (of_char (CHR ''0'') + d)"

fun digits :: "nat \<Rightarrow> string" where
  "digits n = (if n < 10 then [digit_char n] else digits (n div 10) @ [digit_char (n mod 10)])"

declare digits.simps [simp del]

definition Itoa :: "int \<Rightarrow> string" where
  "Itoa i = (if i < 0 then CHR ''-'' # digits (nat (- i)) else digits (nat i))"

subsection \<open>Slices\<close>

text \<open>
  A Go slice is either \<open>nil\<close> or a (possibly empty) sequence; the two are
  distinguishable (\<open>s == nil\<close>, JSON \<open>null\<close> against \<open>[]\<close>), so a slice is an
  optional list with \<open>None\<close> for \<open>nil\<close>. \<open>len\<close> and \<open>range\<close> treat \<open>nil\<close>
  as empty: \<open>elems\<close> is the sequence a \<open>range\<close> loop visits.
\<close>

type_synonym 'a slice = "'a list option"

definition elems :: "'a slice \<Rightarrow> 'a list" where
  "elems s = (case s of None \<Rightarrow> [] | Some xs \<Rightarrow> xs)"

definition len :: "'a slice \<Rightarrow> nat" where
  "len s = length (elems s)"

subsection \<open>Errors\<close>

text \<open>
  Error values: the two context errors, the four sentinels of the client
  package, errors that carry only a message (\<open>errors.New\<close>, \<open>fmt.Errorf\<close>
  without \<open>%w\<close>), and errors that carry a message and the errors they wrap
  (\<open>fmt.Errorf\<close> with one or more \<open>%w\<close>, and library errors with an
  \<open>Unwrap\<close> method such as \<open>*url.Error\<close>).
\<close>

datatype go_error =
    Canceled
  | DeadlineExceeded
  | ErrInvalidURL
  | ErrRequestFailed
  | ErrInvalidResponse
  | ErrTimeout
  | ErrorString string
  | Errorf string "go_error list"

fun Error :: "go_error \<Rightarrow> string" where
  "Error Canceled = ''context canceled''"
| "Error DeadlineExceeded = ''context deadline exceeded''"
| "Error ErrInvalidURL = ''invalid searxng instance URL''"
| "Error ErrRequestFailed = ''search request failed''"
| "Error ErrInvalidResponse = ''invalid response from searxng''"
| "Error ErrTimeout = ''request timeout''"
| "Error (ErrorString s) = s"
| "Error (Errorf s es) = s"

text \<open>\<open>errors.Is\<close>: the error itself or anything in its tree of wrapped errors.\<close>

fun errors_Is :: "go_error \<Rightarrow> go_error \<Rightarrow> bool" where
  "errors_Is (Errorf s es) target =
     (Errorf s es = target \<or> list_ex (\<lambda>e. errors_Is e target) es)"
| "errors_Is err target = (err = target)"

text \<open>\<open>fmt.Errorf(msg + "%w", err)\<close> and \<open>fmt.Errorf("%w: %w", a, b)\<close>.\<close>

definition wrap1 :: "string \<Rightarrow> go_error \<Rightarrow> go_error" where
  "wrap1 msg err = Errorf (msg @ Error err) [err]"

definition wrap2 :: "go_error \<Rightarrow> go_error \<Rightarrow> go_error" where
  "wrap2 a b = Errorf (Error a @ '': '' @ Error b) [a, b]"

text \<open>
  \<open>fmt.Errorf("%w: %w", a, lastErr)\<close> where \<open>lastErr\<close> may be the nil error: a
  nil operand prints as a bad verb and is not wrapped.
\<close>

definition wrap2_opt :: "go_error \<Rightarrow> go_error option \<Rightarrow> go_error" where
  "wrap2_opt a b =
     (case b of
        None \<Rightarrow> Errorf (Error a @ '': %!w(<nil>)'') [a]
      | Some e \<Rightarrow> wrap2 a e)"

section \<open>The rate limiter\<close>

record rateLimiter =
  tokens :: int
  maxTokens :: int
  refillRate :: int
  lastRefill :: int

definition newRateLimiter :: "int \<Rightarrow> int \<Rightarrow> int \<Rightarrow> rateLimiter" where
  "newRateLimiter maxTokens' refillRate' now =
     \<lparr>tokens = maxTokens', maxTokens = maxTokens', refillRate = refillRate', lastRefill = now\<rparr>"

text \<open>
  The refill step of \<open>rateLimiter.wait\<close> (the block under "Refill tokens based on
  elapsed time"), run under the mutex at every iteration. \<open>None\<close> is the
  run-time panic of the integer division when \<open>refillRate\<close> is zero.
\<close>

definition refill :: "rateLimiter \<Rightarrow> int \<Rightarrow> rateLimiter option" where
  "refill rl now =
     (let elapsed = time_Sub now (lastRefill rl) in
      if refillRate rl = 0 then None
      else
        let tokensToAdd = wrap64 (elapsed sdiv refillRate rl) in
        if 0 < tokensToAdd
        then Some (rl\<lparr>tokens := min (maxTokens rl) (wrap64 (tokens rl + tokensToAdd)),
                       lastRefill := now\<rparr>)
        else Some rl)"

text \<open>
  One iteration of the loop of \<open>wait\<close> reads the clock and, when no token is
  available, blocks in a \<open>select\<close> until the timer of one refill interval
  fires or the context is done. The environment supplies, per iteration, the
  clock reading and which \<open>select\<close> case is taken (with \<open>ctx.Err()\<close> for the
  second). The loop may run forever; the schedule is finite and \<open>None\<close> means
  that \<open>wait\<close> has not returned within it.
\<close>

datatype select_case = TimerFired | CtxDone go_error

type_synonym tick = "int \<times> select_case"

datatype wait_result = Acquired | Cancelled go_error | DivideByZero

fun wait :: "rateLimiter \<Rightarrow> tick list \<Rightarrow> (wait_result \<times> rateLimiter) option" where
  "wait rl [] = None"
| "wait rl ((now, sel) # ticks) =
     (case refill rl now of
        None \<Rightarrow> Some (DivideByZero, rl)
      | Some rl1 \<Rightarrow>
          if 0 < tokens rl1 then Some (Acquired, rl1\<lparr>tokens := tokens rl1 - 1\<rparr>)
          else
            (case sel of
               TimerFired \<Rightarrow> wait rl1 ticks
             | CtxDone err \<Rightarrow> Some (Cancelled err, rl1)))"

section \<open>The data model\<close>

text \<open>
  Floating point arithmetic and URL parsing are not interpreted: the program
  only passes these values on to the libraries that produce and consume them.
  A \<open>float64\<close> is a finite number, an infinity (with its sign) or not a number;
  a parsed \<open>*url.URL\<close> is kept as the string it was parsed from.
\<close>

datatype float64 = Finite real | Inf bool | NaN

datatype URL = ParsedURL string

text \<open>
  A \<open>time.Time\<close> as \<open>time.Parse\<close> builds it: the civil date and time of day
  that were read, and the zone offset in seconds east of UTC (\<open>None\<close> when the
  input carried no offset, which is UTC).
\<close>

record Time =
  t_year :: int
  t_month :: int
  t_day :: int
  t_hour :: int
  t_minute :: int
  t_second :: int
  t_nsec :: int
  t_offset :: "int option"

definition Year :: "Time \<Rightarrow> int" where
  "Year t = t_year t"

text \<open>
  Field names are those of the Go structs; where two structs share a field name
  the later ones carry a prefix (\<open>rq\<close> for \<open>APIRequest\<close>, \<open>sr\<close> for
  \<open>SearchResult\<close>, \<open>ar\<close> for \<open>APIResult\<close>, \<open>rs\<close> for \<open>SearchResponse\<close>,
  \<open>api\<close> for \<open>APIResponse\<close>).
\<close>

record SearchRequest =
  Query :: string
  Limit :: int
  Page :: int
  TimeRange :: string
  Category :: string
  Language :: string
  Engines :: "string slice"

record APIRequest =
  rq_Query :: string
  rq_Category :: string
  rq_Engines :: "string slice"
  rq_Language :: string
  rq_Pageno :: int
  rq_TimeRange :: string
  rq_Format :: string

record SearchResult =
  sr_URL :: string
  sr_Title :: string
  sr_Content :: string
  sr_PublishedDate :: "Time option"
  sr_Engine :: string
  sr_Category :: string
  sr_Score :: float64
  sr_Thumbnail :: string
  sr_ImageSrc :: string
  sr_Engines :: "string slice"
  sr_Positions :: "int slice"

record APIResult =
  ar_URL :: string
  ar_Title :: string
  ar_Content :: string
  ar_PublishedDate :: string
  ar_Engine :: string
  ar_Category :: string
  ar_Score :: float64
  ar_Thumbnail :: string
  ar_ImgSrc :: string
  ar_Engines :: "string slice"
  ar_Positions :: "int slice"

record InfoboxImage =
  img_URL :: string
  img_Alt :: string
  img_ThumbnailURL :: string

record InfoboxRelatedTopic =
  topic_Name :: string
  topic_URL :: string

record InfoboxURL =
  iu_URL :: string
  iu_Title :: string
  iu_Engine :: string
  iu_Category :: string
  iu_ImgSrc :: string

record Infobox =
  ib_Content :: string
  ib_Engine :: string
  ib_Attribution :: string
  ib_Images :: "InfoboxImage slice"
  ib_Label :: string
  ib_RelatedTopics :: "InfoboxRelatedTopic slice"
  ib_Urls :: "InfoboxURL slice"

record UnresponsiveEngine =
  ue_Name :: string
  ue_Error :: string

record SearchResponse =
  rs_Query :: string
  rs_NumberOfResults :: int
  rs_Results :: "SearchResult slice"
  rs_Answers :: "string slice"
  rs_Corrections :: "string slice"
  rs_Infoboxes :: "Infobox slice"
  rs_Suggestions :: "string slice"
  rs_UnresponsiveEngines :: "UnresponsiveEngine slice"

record APIResponse =
  api_Query :: string
  api_NumberOfResults :: int
  api_Results :: "APIResult slice"
  api_Answers :: "string slice"
  api_Corrections :: "string slice"
  api_Infoboxes :: "Infobox slice"
  api_Suggestions :: "string slice"
  api_UnresponsiveEngines :: "UnresponsiveEngine slice"

record Config =
  BaseURL :: string
  Timeout :: int
  MaxRetries :: int
  UserAgent :: string

definition DefaultInstanceURL :: string where
  "DefaultInstanceURL = ''https://searxng.example.com''"

definition DefaultConfig :: Config where
  "DefaultConfig =
     \<lparr>BaseURL = DefaultInstanceURL, Timeout = 30 * Second, MaxRetries = 3,
      UserAgent = ''searxng-mcp/1.0''\<rparr>"

section \<open>The response normalizer\<close>

text \<open>
  \<open>parsePublishedDate\<close> tries the four layouts in the order of the source's
  \<open>formats\<close> slice. Its first argument is \<open>time.Parse\<close>.
\<close>

definition RFC3339 :: string where
  "RFC3339 = ''2006-01-02T15:04:05Z07:00''"

definition formats :: "string list" where
  "formats = [RFC3339, ''2006-01-02T15:04:05Z'', ''2006-01-02 15:04:05'', ''2006-01-02'']"

fun tryFormats :: "(string \<Rightarrow> string \<Rightarrow> go_error + Time) \<Rightarrow> string list \<Rightarrow> string \<Rightarrow> Time option" where
  "tryFormats parse [] dateStr = None"
| "tryFormats parse (format # rest) dateStr =
     (case parse format dateStr of
        Inr t \<Rightarrow> Some t
      | Inl err \<Rightarrow> tryFormats parse rest dateStr)"

definition parsePublishedDate :: "(string \<Rightarrow> string \<Rightarrow> go_error + Time) \<Rightarrow> string \<Rightarrow> Time option" where
  "parsePublishedDate parse dateStr =
     (if dateStr = [] then None else tryFormats parse formats dateStr)"

definition toSearchResult :: "(string \<Rightarrow> string \<Rightarrow> go_error + Time) \<Rightarrow> APIResult \<Rightarrow> SearchResult" where
  "toSearchResult parse r =
     \<lparr>sr_URL = ar_URL r,
      sr_Title = ar_Title r,
      sr_Content = ar_Content r,
      sr_PublishedDate = parsePublishedDate parse (ar_PublishedDate r),
      sr_Engine = ar_Engine r,
      sr_Category = ar_Category r,
      sr_Score = ar_Score r,
      sr_Thumbnail = ar_Thumbnail r,
      sr_ImageSrc = ar_ImgSrc r,
      sr_Engines = ar_Engines r,
      sr_Positions = ar_Positions r\<rparr>"

text \<open>
  \<open>results\<close> is allocated with \<open>make\<close>, so it is never \<open>nil\<close>; the other
  slices are copied as they are.
\<close>

definition toSearchResponse :: "(string \<Rightarrow> string \<Rightarrow> go_error + Time) \<Rightarrow> APIResponse \<Rightarrow> SearchResponse" where
  "toSearchResponse parse r =
     (let results = Some (map (toSearchResult parse) (elems (api_Results r))) in
      \<lparr>rs_Query = api_Query r,
       rs_NumberOfResults = api_NumberOfResults r,
       rs_Results = results,
       rs_Answers = api_Answers r,
       rs_Corrections = api_Corrections r,
       rs_Infoboxes = api_Infoboxes r,
       rs_Suggestions = api_Suggestions r,
       rs_UnresponsiveEngines = api_UnresponsiveEngines r\<rparr>)"

section \<open>The search client\<close>

subsection \<open>The libraries and the network\<close>

text \<open>
  An HTTP request as the client sends it, and the response it reads back.
\<close>

record http_request =
  req_method :: string
  req_url :: string
  req_header :: "(string \<times> string) list"
  req_body :: "string option"

record http_response =
  StatusCode :: int
  Body :: string

text \<open>
  What the client does to the world, in order: the HTTP requests it hands to
  \<open>http.Client.Do\<close> and the durations it passes to \<open>time.Sleep\<close>.
\<close>

datatype event = HttpCall http_request | Sleep int

text \<open>
  A value of type \<open>any\<close> (\<open>interface{}\<close>), as far as the server meets them:
  what the JSON decoder produces, integers, and the maps and slices the server
  builds for its JSON output. A map is an association list with distinct keys.
\<close>

datatype any =
    AnyNil
  | AnyBool bool
  | AnyFloat64 float64
  | AnyInt int
  | AnyString string
  | AnySlice "any list"
  | AnyMap "(string \<times> any) list"

text \<open>
  The environment of one call: the schedule of the rate limiter's loop; the
  library functions the program calls (\<open>url.Parse\<close>; \<open>ResolveReference\<close> of the
  parsed reference \<open>/search\<close> followed by \<open>String\<close>; \<open>url.QueryEscape\<close>;
  \<open>json.Marshal\<close>; \<open>http.NewRequestWithContext\<close>, of which only the error
  matters; the JSON decoder; \<open>time.Parse\<close> and \<open>Time.Format\<close>; the conversions
  between \<open>float64\<close> and \<open>int\<close>; \<open>json.MarshalIndent\<close>); and the network,
  which answers the request of the \<open>n\<close>-th attempt with a transport error (a
  cancelled context included) or a response.
\<close>

record env =
  ticks :: "tick list"
  url_Parse :: "string \<Rightarrow> go_error + URL"
  resolve_search :: "URL \<Rightarrow> string"
  QueryEscape :: "string \<Rightarrow> string"
  json_Marshal :: "APIRequest \<Rightarrow> go_error + string"
  NewRequest :: "string \<Rightarrow> string \<Rightarrow> go_error option"
  Do :: "nat \<Rightarrow> http_request \<Rightarrow> go_error + http_response"
  json_Decode :: "string \<Rightarrow> go_error + APIResponse"
  time_Parse :: "string \<Rightarrow> string \<Rightarrow> go_error + Time"
  time_Format :: "Time \<Rightarrow> string \<Rightarrow> string"
  int_of_float64 :: "float64 \<Rightarrow> int"
  float64_of_int :: "int \<Rightarrow> float64"
  json_MarshalIndent :: "any \<Rightarrow> go_error + string"

subsection \<open>\<open>url.Values\<close>\<close>

type_synonym Values = "(string \<times> string list) list"

definition Values_Get :: "Values \<Rightarrow> string \<Rightarrow> string list" where
  "Values_Get v key = (case map_of v key of None \<Rightarrow> [] | Some vs \<Rightarrow> vs)"

definition Values_Set :: "Values \<Rightarrow> string \<Rightarrow> string \<Rightarrow> Values" where
  "Values_Set v key val = AList.update key [val] v"

definition Values_Add :: "Values \<Rightarrow> string \<Rightarrow> string \<Rightarrow> Values" where
  "Values_Add v key val = AList.update key (Values_Get v key @ [val]) v"

fun Join :: "'a list list \<Rightarrow> 'a list \<Rightarrow> 'a list" where
  "Join [] sep = []"
| "Join [x] sep = x"
| "Join (x # y # ys) sep = x @ sep @ Join (y # ys) sep"

text \<open>\<open>Values.Encode\<close>: \<open>key=value\<close> pairs joined by \<open>&\<close>, sorted by key.\<close>

definition Values_Encode :: "(string \<Rightarrow> string) \<Rightarrow> Values \<Rightarrow> string" where
  "Values_Encode escape v =
     Join (concat (map (\<lambda>k. map (\<lambda>val. escape k @ ''='' @ escape val) (Values_Get v k))
                       (sort (map fst v))))
          ''&''"

subsection \<open>\<open>Client\<close>\<close>

record Client =
  config :: Config
  rateLimiter :: rateLimiter

definition NewClient :: "env \<Rightarrow> Config option \<Rightarrow> int \<Rightarrow> go_error + Client" where
  "NewClient e cfg now =
     (let config' = (case cfg of None \<Rightarrow> DefaultConfig | Some c \<Rightarrow> c) in
      case url_Parse e (BaseURL config') of
        Inl err \<Rightarrow> Inl (wrap2 ErrInvalidURL err)
      | Inr u \<Rightarrow> Inr \<lparr>config = config', rateLimiter = newRateLimiter 10 (100 * Millisecond) now\<rparr>)"

text \<open>The block "Apply defaults" that opens both \<open>Search\<close> and \<open>SearchJSON\<close>.\<close>

definition applyDefaults :: "SearchRequest \<Rightarrow> SearchRequest" where
  "applyDefaults req =
     (let req1 = (if Limit req \<le> 0 then req\<lparr>Limit := 5\<rparr> else req);
          req2 = (if 20 < Limit req1 then req1\<lparr>Limit := 20\<rparr> else req1);
          req3 = (if Page req2 \<le> 0 then req2\<lparr>Page := 1\<rparr> else req2)
      in req3)"

definition buildSearchURL :: "env \<Rightarrow> Config \<Rightarrow> SearchRequest \<Rightarrow> go_error + string" where
  "buildSearchURL e cfg req =
     (case url_Parse e (BaseURL cfg) of
        Inl err \<Rightarrow> Inl err
      | Inr baseURL \<Rightarrow>
          let apiURL = resolve_search e baseURL;
              q1 = Values_Set [] ''q'' (Query req);
              q2 = Values_Set q1 ''format'' ''json'';
              q3 = (if Category req \<noteq> [] then Values_Set q2 ''category'' (Category req) else q2);
              q4 = (if Language req \<noteq> [] then Values_Set q3 ''language'' (Language req) else q3);
              q5 = (if 1 < Page req then Values_Set q4 ''pageno'' (Itoa (Page req)) else q4);
              q6 = (if TimeRange req \<noteq> [] then Values_Set q5 ''time_range'' (TimeRange req) else q5);
              queryParams = foldl (\<lambda>q engine. Values_Add q ''engines'' engine) q6 (elems (Engines req))
          in Inr (apiURL @ ''?'' @ Values_Encode (QueryEscape e) queryParams))"

text \<open>
  \<open>doSearchRequest\<close> for the attempt numbered \<open>n\<close>: the result and the events
  of the attempt.
\<close>

definition doSearchRequest :: "env \<Rightarrow> Config \<Rightarrow> nat \<Rightarrow> string \<Rightarrow> (go_error + SearchResponse) \<times> event list" where
  "doSearchRequest e cfg n searchURL =
     (case NewRequest e ''GET'' searchURL of
        Some err \<Rightarrow> (Inl (wrap1 ''failed to create request: '' err), [])
      | None \<Rightarrow>
          let httpReq = \<lparr>req_method = ''GET'', req_url = searchURL,
                         req_header =
                           (if UserAgent cfg \<noteq> [] then [(''User-Agent'', UserAgent cfg)] else [])
                           @ [(''Accept'', ''application/json'')],
                         req_body = None\<rparr>
          in case Do e n httpReq of
               Inl err \<Rightarrow> (Inl (wrap1 ''HTTP request failed: '' err), [HttpCall httpReq])
             | Inr httpResp \<Rightarrow>
                 if StatusCode httpResp < 200 \<or> 300 \<le> StatusCode httpResp
                 then (Inl (ErrorString (''HTTP '' @ Itoa (StatusCode httpResp) @ '': '' @ Body httpResp)),
                       [HttpCall httpReq])
                 else
                   (case json_Decode e (Body httpResp) of
                      Inl err \<Rightarrow> (Inl (wrap2 ErrInvalidResponse err), [HttpCall httpReq])
                    | Inr apiResp \<Rightarrow>
                        (Inr (toSearchResponse (time_Parse e) apiResp), [HttpCall httpReq])))"

definition doSearchJSONRequest :: "env \<Rightarrow> Config \<Rightarrow> nat \<Rightarrow> string \<Rightarrow> string \<Rightarrow> (go_error + SearchResponse) \<times> event list" where
  "doSearchJSONRequest e cfg n apiURL body =
     (case NewRequest e ''POST'' apiURL of
        Some err \<Rightarrow> (Inl (wrap1 ''failed to create request: '' err), [])
      | None \<Rightarrow>
          let httpReq = \<lparr>req_method = ''POST'', req_url = apiURL,
                         req_header =
                           (if UserAgent cfg \<noteq> [] then [(''User-Agent'', UserAgent cfg)] else [])
                           @ [(''Accept'', ''application/json''),
                              (''Content-Type'', ''application/json'')],
                         req_body = Some body\<rparr>
          in case Do e n httpReq of
               Inl err \<Rightarrow> (Inl (wrap1 ''HTTP request failed: '' err), [HttpCall httpReq])
             | Inr httpResp \<Rightarrow>
                 if StatusCode httpResp < 200 \<or> 300 \<le> StatusCode httpResp
                 then (Inl (ErrorString (''HTTP '' @ Itoa (StatusCode httpResp) @ '': '' @ Body httpResp)),
                       [HttpCall httpReq])
                 else
                   (case json_Decode e (Body httpResp) of
                      Inl err \<Rightarrow> (Inl (wrap2 ErrInvalidResponse err), [HttpCall httpReq])
                    | Inr apiResp \<Rightarrow>
                        (Inr (toSearchResponse (time_Parse e) apiResp), [HttpCall httpReq])))"

text \<open>
  What a call of \<open>Search\<close> or \<open>SearchJSON\<close> comes to: a response, an error, or
  the panic of the rate limiter's division.
\<close>

datatype search_result = Response SearchResponse | Failure go_error | Panic

text \<open>
  The retry loop, shared in shape by \<open>Search\<close> and \<open>SearchJSON\<close>; \<open>attempt\<close> is
  the loop variable, \<open>doRequest\<close> the request of one attempt and \<open>lastErr\<close> the
  variable of that name. The loop variable is not wrapped: the loop ends
  before \<open>attempt\<close> can leave the 64-bit range whenever \<open>MaxRetries\<close> is below
  the largest \<open>int\<close>.
\<close>

function retryLoop :: "(nat \<Rightarrow> (go_error + SearchResponse) \<times> event list) \<Rightarrow> int \<Rightarrow> int \<Rightarrow> go_error option
    \<Rightarrow> search_result \<times> event list" where
  "retryLoop doRequest maxRetries attempt lastErr =
     (if attempt \<le> maxRetries
      then
        let slept = (if 0 < attempt then [Sleep (wrap64 (attempt * Second))] else []);
            (r, evs) = doRequest (nat attempt)
        in case r of
             Inr resp \<Rightarrow> (Response resp, slept @ evs)
           | Inl err \<Rightarrow>
               if errors_Is err Canceled \<or> errors_Is err DeadlineExceeded
               then (Failure err, slept @ evs)
               else
                 let (res, rest) = retryLoop doRequest maxRetries (attempt + 1) (Some err)
                 in (res, slept @ evs @ rest)
      else (Failure (wrap2_opt ErrRequestFailed lastErr), []))"
  by pat_completeness auto
termination
  by (relation "measure (\<lambda>(d, m, a, l). nat (m + 1 - a))") auto

declare retryLoop.simps [simp del]

text \<open>
  \<open>Search\<close> and \<open>SearchJSON\<close> return the result, the rate limiter as the call
  leaves it, and the events of the call; \<open>None\<close> when the rate limiter has not
  let the call through within the schedule.
\<close>

definition Search :: "env \<Rightarrow> Client \<Rightarrow> SearchRequest \<Rightarrow> (search_result \<times> rateLimiter \<times> event list) option" where
  "Search e c req0 =
     (let req = applyDefaults req0 in
      case wait (rateLimiter c) (ticks e) of
        None \<Rightarrow> None
      | Some (DivideByZero, rl) \<Rightarrow> Some (Panic, rl, [])
      | Some (Cancelled err, rl) \<Rightarrow> Some (Failure (wrap2 ErrTimeout err), rl, [])
      | Some (Acquired, rl) \<Rightarrow>
          (case buildSearchURL e (config c) req of
             Inl err \<Rightarrow> Some (Failure (wrap1 ''failed to build search URL: '' err), rl, [])
           | Inr apiURL \<Rightarrow>
               let (res, evs) =
                     retryLoop (\<lambda>n. doSearchRequest e (config c) n apiURL)
                       (MaxRetries (config c)) 0 None
               in Some (res, rl, evs)))"

text \<open>The struct literal \<open>apiReq\<close> of \<open>SearchJSON\<close>.\<close>

definition apiReq :: "SearchRequest \<Rightarrow> APIRequest" where
  "apiReq req =
     \<lparr>rq_Query = Query req,
      rq_Category = Category req,
      rq_Engines = Engines req,
      rq_Language = Language req,
      rq_Pageno = Page req,
      rq_TimeRange = TimeRange req,
      rq_Format = ''json''\<rparr>"

definition SearchJSON :: "env \<Rightarrow> Client \<Rightarrow> SearchRequest \<Rightarrow> (search_result \<times> rateLimiter \<times> event list) option" where
  "SearchJSON e c req0 =
     (let req = applyDefaults req0 in
      case wait (rateLimiter c) (ticks e) of
        None \<Rightarrow> None
      | Some (DivideByZero, rl) \<Rightarrow> Some (Panic, rl, [])
      | Some (Cancelled err, rl) \<Rightarrow> Some (Failure (wrap2 ErrTimeout err), rl, [])
      | Some (Acquired, rl) \<Rightarrow>
          (case url_Parse e (BaseURL (config c)) of
             Inl err \<Rightarrow> Some (Failure err, rl, [])
           | Inr baseURL \<Rightarrow>
               let apiURL = resolve_search e baseURL in
               case json_Marshal e (apiReq req) of
                 Inl err \<Rightarrow> Some (Failure (wrap1 ''failed to marshal request: '' err), rl, [])
               | Inr body \<Rightarrow>
                   let (res, evs) =
                         retryLoop (\<lambda>n. doSearchJSONRequest e (config c) n apiURL body)
                           (MaxRetries (config c)) 0 None
                   in Some (res, rl, evs)))"

section \<open>\<open>time.Parse\<close> on the layouts of \<open>formats\<close>\<close>

text \<open>
  \<open>time.Parse\<close> belongs to the standard library. The model below follows its
  layout-driven parser for the layout elements that occur in the four layouts
  of \<open>formats\<close>: the four-digit year, the two-digit month, day, minute and
  second, the hour, the RFC 3339 zone (\<open>Z\<close> or a signed \<open>hh:mm\<close>) and literal
  characters. It is not a model of other layouts. The text of a parse error is
  not modelled: \<open>parsePublishedDate\<close> only tests the error against nil.
\<close>

datatype chunk =
    Lit char
  | stdLongYear
  | stdZeroMonth
  | stdZeroDay
  | stdHour
  | stdZeroMinute
  | stdZeroSecond
  | stdISO8601ColonTZ

function layout_chunks :: "string \<Rightarrow> chunk list" where
  "layout_chunks layout =
     (if layout = [] then []
      else if take 4 layout = ''2006'' then stdLongYear # layout_chunks (drop 4 layout)
      else if take 6 layout = ''Z07:00'' then stdISO8601ColonTZ # layout_chunks (drop 6 layout)
      else if take 2 layout = ''01'' then stdZeroMonth # layout_chunks (drop 2 layout)
      else if take 2 layout = ''02'' then stdZeroDay # layout_chunks (drop 2 layout)
      else if take 2 layout = ''15'' then stdHour # layout_chunks (drop 2 layout)
      else if take 2 layout = ''04'' then stdZeroMinute # layout_chunks (drop 2 layout)
      else if take 2 layout = ''05'' then stdZeroSecond # layout_chunks (drop 2 layout)
      else Lit (hd layout) # layout_chunks (tl layout))"
  by pat_completeness auto
termination
  by (relation "measure length") auto

declare layout_chunks.simps [simp del]

definition errBad :: go_error where
  "errBad = ErrorString ''parsing time''"

definition isDigit :: "char \<Rightarrow> bool" where
  "isDigit c = (CHR ''0'' \<le> c \<and> c \<le> CHR ''9'')"

definition digit_val :: "char \<Rightarrow> int" where
  "digit_val c = int (of_char c) - int (of_char (CHR ''0''))"

text \<open>The value of a string of decimal digits.\<close>

definition atoi_digits :: "string \<Rightarrow> int" where
  "atoi_digits s = foldl (\<lambda>acc c. acc * 10 + digit_val c) 0 s"

text \<open>
  \<open>getnum\<close>: one or two digits; exactly two when \<open>fixed\<close>. \<open>None\<close> is
  \<open>errBad\<close>.
\<close>

definition getnum :: "string \<Rightarrow> bool \<Rightarrow> (int \<times> string) option" where
  "getnum s fixed =
     (case s of
        [] \<Rightarrow> None
      | c0 # r \<Rightarrow>
          if \<not> isDigit c0 then None
          else
            (case r of
               [] \<Rightarrow> if fixed then None else Some (digit_val c0, r)
             | c1 # r' \<Rightarrow>
                 if \<not> isDigit c1 then (if fixed then None else Some (digit_val c0, r))
                 else Some (digit_val c0 * 10 + digit_val c1, r')))"

definition isLeap :: "int \<Rightarrow> bool" where
  "isLeap y = (y mod 4 = 0 \<and> (y mod 100 \<noteq> 0 \<or> y mod 400 = 0))"

definition daysIn :: "int \<Rightarrow> int \<Rightarrow> int" where
  "daysIn m y =
     (if m = 2 then (if isLeap y then 29 else 28)
      else if m = 4 \<or> m = 6 \<or> m = 9 \<or> m = 11 then 30
      else 31)"

text \<open>
  A fractional second in the input after the seconds, which the parser accepts
  although the layout has none: a period or comma and at least one digit. The
  result is the nanoseconds (at most nine digits count) and the rest of the
  input.
\<close>

definition fractional :: "string \<Rightarrow> int \<times> string" where
  "fractional v =
     (if 2 \<le> length v \<and> (hd v = CHR ''.'' \<or> hd v = CHR '','') \<and> isDigit (v ! 1)
      then
        let ds = takeWhile isDigit (tl v);
            used = take 9 ds
        in (atoi_digits used * 10 ^ (9 - length used), drop (1 + length ds) v)
      else (0, v))"

text \<open>
  The zone of \<open>Z07:00\<close>: \<open>Z\<close> is UTC; otherwise a sign, two digits, a colon
  and two digits, with hours up to 24 and minutes up to 60.
\<close>

definition parse_zone :: "string \<Rightarrow> (int option \<times> string) option" where
  "parse_zone v =
     (if v \<noteq> [] \<and> hd v = CHR ''Z'' then Some (None, tl v)
      else if length v < 6 then None
      else if v ! 3 \<noteq> CHR '':'' then None
      else
        (case getnum (take 2 (drop 1 v)) True of
           None \<Rightarrow> None
         | Some (hr, r1) \<Rightarrow>
             (case getnum (take 2 (drop 4 v)) True of
                None \<Rightarrow> None
              | Some (mm, r2) \<Rightarrow>
                  if 24 < hr \<or> 60 < mm then None
                  else if v ! 0 = CHR ''+'' then Some (Some ((hr * 60 + mm) * 60), drop 6 v)
                  else if v ! 0 = CHR ''-'' then Some (Some (- ((hr * 60 + mm) * 60)), drop 6 v)
                  else None)))"

fun parse_chunks :: "chunk list \<Rightarrow> string \<Rightarrow> Time \<Rightarrow> go_error + Time" where
  "parse_chunks [] v t =
     (if v \<noteq> [] then Inl errBad
      else if t_day t < 1 \<or> daysIn (t_month t) (t_year t) < t_day t then Inl errBad
      else Inr t)"
| "parse_chunks (Lit c # cs) v t =
     (if c = CHR '' ''
      then (if v \<noteq> [] \<and> hd v \<noteq> CHR '' '' then Inl errBad
            else parse_chunks cs (dropWhile (\<lambda>x. x = CHR '' '') v) t)
      else if v = [] \<or> hd v \<noteq> c then Inl errBad
      else parse_chunks cs (tl v) t)"
| "parse_chunks (stdLongYear # cs) v t =
     (if length v < 4 \<or> \<not> list_all isDigit (take 4 v) then Inl errBad
      else parse_chunks cs (drop 4 v) (t\<lparr>t_year := atoi_digits (take 4 v)\<rparr>))"
| "parse_chunks (stdZeroMonth # cs) v t =
     (case getnum v True of
        None \<Rightarrow> Inl errBad
      | Some (month, r) \<Rightarrow>
          if month \<le> 0 \<or> 12 < month then Inl errBad
          else parse_chunks cs r (t\<lparr>t_month := month\<rparr>))"
| "parse_chunks (stdZeroDay # cs) v t =
     (case getnum v True of
        None \<Rightarrow> Inl errBad
      | Some (day, r) \<Rightarrow> parse_chunks cs r (t\<lparr>t_day := day\<rparr>))"
| "parse_chunks (stdHour # cs) v t =
     (case getnum v False of
        None \<Rightarrow> Inl errBad
      | Some (hour, r) \<Rightarrow>
          if hour < 0 \<or> 24 \<le> hour then Inl errBad
          else parse_chunks cs r (t\<lparr>t_hour := hour\<rparr>))"
| "parse_chunks (stdZeroMinute # cs) v t =
     (case getnum v True of
        None \<Rightarrow> Inl errBad
      | Some (minute, r) \<Rightarrow>
          if minute < 0 \<or> 60 \<le> minute then Inl errBad
          else parse_chunks cs r (t\<lparr>t_minute := minute\<rparr>))"
| "parse_chunks (stdZeroSecond # cs) v t =
     (case getnum v True of
        None \<Rightarrow> Inl errBad
      | Some (sec, r) \<Rightarrow>
          if sec < 0 \<or> 60 \<le> sec then Inl errBad
          else
            let (nsec, r') = fractional r
            in parse_chunks cs r' (t\<lparr>t_second := sec, t_nsec := nsec\<rparr>))"
| "parse_chunks (stdISO8601ColonTZ # cs) v t =
     (case parse_zone v of
        None \<Rightarrow> Inl errBad
      | Some (z, r) \<Rightarrow> parse_chunks cs r (t\<lparr>t_offset := z\<rparr>))"

text \<open>
  The fields before parsing: midnight, UTC; month and day default to 1 when
  the layout does not set them.
\<close>

definition zeroTime :: Time where
  "zeroTime =
     \<lparr>t_year = 0, t_month = 1, t_day = 1, t_hour = 0, t_minute = 0, t_second = 0,
      t_nsec = 0, t_offset = None\<rparr>"

definition go_time_Parse :: "string \<Rightarrow> string \<Rightarrow> go_error + Time" where
  "go_time_Parse layout v = parse_chunks (layout_chunks layout) v zeroTime"

section \<open>The Markdown post-processing of the content extractor\<close>

text \<open>
  Go strings are byte sequences holding UTF-8, and so are the strings here.
  \<open>strings.TrimSpace\<close> removes leading and trailing Unicode white space;
  a string starts (ends) with a white space code point exactly when it starts
  (ends) with the UTF-8 encoding of one, so trimming is stated on the
  encodings: the six ASCII ones, U+0085, U+00A0, U+1680, U+2000 to U+200A,
  U+2028, U+2029, U+202F, U+205F and U+3000.
\<close>

definition newline :: char where
  "newline = CHR 0x0A"

definition space_encodings :: "string list" where
  "space_encodings =
     [[CHR 0x09], [CHR 0x0A], [CHR 0x0B], [CHR 0x0C], [CHR 0x0D], [CHR 0x20],
      [CHR 0xC2, CHR 0x85], [CHR 0xC2, CHR 0xA0],
      [CHR 0xE1, CHR 0x9A, CHR 0x80],
      [CHR 0xE2, CHR 0x80, CHR 0x80], [CHR 0xE2, CHR 0x80, CHR 0x81],
      [CHR 0xE2, CHR 0x80, CHR 0x82], [CHR 0xE2, CHR 0x80, CHR 0x83],
      [CHR 0xE2, CHR 0x80, CHR 0x84], [CHR 0xE2, CHR 0x80, CHR 0x85],
      [CHR 0xE2, CHR 0x80, CHR 0x86], [CHR 0xE2, CHR 0x80, CHR 0x87],
      [CHR 0xE2, CHR 0x80, CHR 0x88], [CHR 0xE2, CHR 0x80, CHR 0x89],
      [CHR 0xE2, CHR 0x80, CHR 0x8A],
      [CHR 0xE2, CHR 0x80, CHR 0xA8], [CHR 0xE2, CHR 0x80, CHR 0xA9],
      [CHR 0xE2, CHR 0x80, CHR 0xAF],
      [CHR 0xE2, CHR 0x81, CHR 0x9F],
      [CHR 0xE3, CHR 0x80, CHR 0x80]]"

text \<open>Removes leading occurrences of the given non-empty strings.\<close>

function trim_prefixes :: "string list \<Rightarrow> string \<Rightarrow> string" where
  "trim_prefixes encs s =
     (case find (\<lambda>e. e \<noteq> [] \<and> prefix e s) encs of
        None \<Rightarrow> s
      | Some e \<Rightarrow> trim_prefixes encs (drop (length e) s))"
  by pat_completeness auto
termination
  by (relation "measure (\<lambda>(encs, s). length s)") (auto simp: find_Some_iff prefix_def)

declare trim_prefixes.simps [simp del]

definition TrimLeft :: "string \<Rightarrow> string" where
  "TrimLeft s = trim_prefixes space_encodings s"

definition TrimRight :: "string \<Rightarrow> string" where
  "TrimRight s = rev (trim_prefixes (map rev space_encodings) (rev s))"

definition TrimSpace :: "string \<Rightarrow> string" where
  "TrimSpace s = TrimRight (TrimLeft s)"

text \<open>\<open>strings.Split(s, "\n")\<close>: one more piece than there are newlines.\<close>

fun Split :: "string \<Rightarrow> string list" where
  "Split [] = [[]]"
| "Split (c # cs) =
     (if c = newline then [] # Split cs
      else (case Split cs of l # ls \<Rightarrow> (c # l) # ls | [] \<Rightarrow> [[c]]))"

text \<open>
  The loop over \<open>lines\<close> of \<open>cleanMarkdown\<close>, with its two variables
  \<open>emptyCount\<close> and \<open>cleaned\<close>.
\<close>

fun collapse :: "string list \<Rightarrow> int \<Rightarrow> string list \<Rightarrow> string list" where
  "collapse [] emptyCount cleaned = cleaned"
| "collapse (line # lines) emptyCount cleaned =
     (let trimmed = TrimSpace line in
      if trimmed = []
      then (if emptyCount + 1 \<le> 2
            then collapse lines (emptyCount + 1) (cleaned @ [[]])
            else collapse lines (emptyCount + 1) cleaned)
      else collapse lines 0 (cleaned @ [trimmed]))"

text \<open>The two loops that drop empty lines from the front and from the back.\<close>

fun trimLeading :: "string list \<Rightarrow> string list" where
  "trimLeading [] = []"
| "trimLeading (l # ls) = (if l = [] then trimLeading ls else l # ls)"

function trimTrailing :: "string list \<Rightarrow> string list" where
  "trimTrailing cleaned =
     (if cleaned \<noteq> [] \<and> last cleaned = [] then trimTrailing (butlast cleaned) else cleaned)"
  by pat_completeness auto
termination
  by (relation "measure length") auto

declare trimTrailing.simps [simp del]

definition cleanMarkdown :: "string \<Rightarrow> string" where
  "cleanMarkdown markdown =
     (let lines = Split markdown;
          cleaned = collapse lines 0 [];
          cleaned1 = trimLeading cleaned;
          cleaned2 = trimTrailing cleaned1
      in Join cleaned2 [newline])"

section \<open>The \<open>web_search\<close> tool\<close>

text \<open>
  A tool result of the MCP library: the texts of its content items and the
  error flag, as \<open>mcp.NewToolResultError\<close> and \<open>mcp.NewToolResultText\<close> build
  them.
\<close>

record CallToolResult =
  Content :: "string list"
  IsError :: bool

definition NewToolResultError :: "string \<Rightarrow> CallToolResult" where
  "NewToolResultError msg = \<lparr>Content = [msg], IsError = True\<rparr>"

definition NewToolResultText :: "string \<Rightarrow> CallToolResult" where
  "NewToolResultText msg = \<lparr>Content = [msg], IsError = False\<rparr>"

text \<open>
  The index expression \<open>args[key]\<close> on a \<open>map[string]interface{}\<close> (the nil
  interface for a missing key) and the type assertions \<open>v.(string)\<close> and
  \<open>v.(float64)\<close> in their two-result form.
\<close>

definition index :: "(string \<times> any) list \<Rightarrow> string \<Rightarrow> any" where
  "index args key = (case map_of args key of None \<Rightarrow> AnyNil | Some v \<Rightarrow> v)"

definition assert_string :: "any \<Rightarrow> string \<times> bool" where
  "assert_string v = (case v of AnyString s \<Rightarrow> (s, True) | _ \<Rightarrow> ([], False))"

definition assert_float64 :: "any \<Rightarrow> float64 option" where
  "assert_float64 v = (case v of AnyFloat64 f \<Rightarrow> Some f | _ \<Rightarrow> None)"

definition formatSearchResults :: "env \<Rightarrow> SearchResponse \<Rightarrow> any" where
  "formatSearchResults e resp =
     (let results =
            map (\<lambda>r. AnyMap
                   ([(''title'', AnyString (sr_Title r)),
                     (''url'', AnyString (sr_URL r)),
                     (''snippet'', AnyString (sr_Content r))]
                    @ (case sr_PublishedDate r of
                         None \<Rightarrow> []
                       | Some t \<Rightarrow> [(''published_date'', AnyString (time_Format e t ''2006-01-02''))])))
              (elems (rs_Results resp));
          output = [(''query'', AnyString (rs_Query resp)),
                    (''total_results'', AnyFloat64 (float64_of_int e (rs_NumberOfResults resp))),
                    (''results'', AnySlice results)];
          output1 = (if 0 < len (rs_Suggestions resp)
                     then output @ [(''suggestions'', AnySlice (map AnyString (elems (rs_Suggestions resp))))]
                     else output);
          output2 = (if 0 < len (rs_Answers resp)
                     then output1 @ [(''answers'', AnySlice (map AnyString (elems (rs_Answers resp))))]
                     else output1);
          output3 = (if 0 < len (rs_Corrections resp)
                     then output2 @ [(''corrections'', AnySlice (map AnyString (elems (rs_Corrections resp))))]
                     else output2)
      in AnyMap output3)"

text \<open>
  What a handler call comes to: the two results of the handler (the tool
  result and the error, which the MCP library turns into a protocol-level
  fault when it is not nil), or the panic of the rate limiter.
\<close>

datatype handler_result = Returned CallToolResult "go_error option" | HandlerPanic

text \<open>
  \<open>handleWebSearch\<close> on the \<open>Arguments\<close> of the request, with the client of
  the server. As for \<open>Search\<close>, the rate limiter and the events come back with
  the result.
\<close>

definition handleWebSearch :: "env \<Rightarrow> Client \<Rightarrow> any \<Rightarrow> (handler_result \<times> rateLimiter \<times> event list) option" where
  "handleWebSearch e c arguments =
     (case arguments of
        AnyMap args \<Rightarrow>
          let (query, ok) = assert_string (index args ''query'') in
          if \<not> ok \<or> query = []
          then Some (Returned (NewToolResultError ''query is required'') None, rateLimiter c, [])
          else
            let req = \<lparr>Query = query, Limit = 0, Page = 0, TimeRange = [], Category = [],
                       Language = [], Engines = None\<rparr>;
                req1 = (case assert_float64 (index args ''limit'') of
                          Some limit \<Rightarrow> req\<lparr>Limit := int_of_float64 e limit\<rparr>
                        | None \<Rightarrow> req);
                req2 = (case assert_string (index args ''time_range'') of
                          (timeRange, True) \<Rightarrow> req1\<lparr>TimeRange := timeRange\<rparr>
                        | (_, False) \<Rightarrow> req1);
                req3 = (case assert_string (index args ''category'') of
                          (category, True) \<Rightarrow> req2\<lparr>Category := category\<rparr>
                        | (_, False) \<Rightarrow> req2);
                req4 = (case assert_float64 (index args ''page'') of
                          Some page \<Rightarrow> req3\<lparr>Page := int_of_float64 e page\<rparr>
                        | None \<Rightarrow> req3)
            in
              (case Search e c req4 of
                 None \<Rightarrow> None
               | Some (Panic, rl, evs) \<Rightarrow> Some (HandlerPanic, rl, evs)
               | Some (Failure err, rl, evs) \<Rightarrow>
                   Some (Returned (NewToolResultError (''search failed: '' @ Error err)) None, rl, evs)
               | Some (Response resp, rl, evs) \<Rightarrow>
                   (case json_MarshalIndent e (formatSearchResults e resp) of
                      Inl err \<Rightarrow>
                        Some (Returned (NewToolResultError (''failed to format results: '' @ Error err)) None,
                              rl, evs)
                    | Inr resultJSON \<Rightarrow> Some (Returned (NewToolResultText resultJSON) None, rl, evs)))
      | _ \<Rightarrow> Some (Returned (NewToolResultError ''invalid arguments format'') None, rateLimiter c, []))"

section \<open>Notions used in the statements\<close>

text \<open>
  The rate limiters the program builds: \<open>newRateLimiter\<close> with a non-negative
  capacity and a positive interval, later used only through \<open>wait\<close>. The last
  conjunct says that the capacity plus the largest number of intervals that fit
  in a \<open>Duration\<close> is itself a 64-bit integer, so that the sum in the refill
  step cannot wrap around; the client's limiter (capacity 10, interval 100 ms)
  is far inside it.
\<close>

definition rl_wf :: "rateLimiter \<Rightarrow> bool" where
  "rl_wf rl =
     (0 \<le> tokens rl \<and> tokens rl \<le> maxTokens rl \<and> 0 < refillRate rl \<and>
      maxTokens rl + maxDuration div refillRate rl \<le> maxDuration)"

text \<open>The sleeps and the HTTP requests among the events of a call, in order.\<close>

fun sleeps :: "event list \<Rightarrow> int list" where
  "sleeps [] = []"
| "sleeps (Sleep d # evs) = d # sleeps evs"
| "sleeps (HttpCall r # evs) = sleeps evs"

fun calls :: "event list \<Rightarrow> http_request list" where
  "calls [] = []"
| "calls (Sleep d # evs) = calls evs"
| "calls (HttpCall r # evs) = r # calls evs"

text \<open>
  The events of the attempts numbered \<open>from\<close> up to, not including, \<open>to\<close> of a
  retry loop when none of them ends the loop: before every attempt but the
  first a sleep of as many seconds as the attempt's number, then the events of
  the attempt itself.
\<close>

definition attempts_events :: "(nat \<Rightarrow> (go_error + SearchResponse) \<times> event list) \<Rightarrow> nat \<Rightarrow> nat \<Rightarrow> event list" where
  "attempts_events doRequest from to =
     concat (map (\<lambda>n. (if 0 < n then [Sleep (int n * Second)] else []) @ snd (doRequest n))
                 [from..<to])"

text \<open>A failure that the retry loop retries: neither cancellation nor deadline.\<close>

definition retried :: "go_error \<Rightarrow> bool" where
  "retried err = (\<not> errors_Is err Canceled \<and> \<not> errors_Is err DeadlineExceeded)"

text \<open>
  A line with no white space at either end, and a sequence of lines without
  three empty lines in a row.
\<close>

definition trimmed :: "string \<Rightarrow> bool" where
  "trimmed l = (\<forall>e\<in>set space_encodings. \<not> prefix e l \<and> \<not> suffix e l)"

definition no_three_blank :: "string list \<Rightarrow> bool" where
  "no_three_blank ls =
     (\<forall>i. i + 2 < length ls \<longrightarrow> \<not> (ls ! i = [] \<and> ls ! (i + 1) = [] \<and> ls ! (i + 2) = []))"

subsection \<open>Test doubles\<close>

text \<open>
  The doubles of the test suite: a backend that answers every request with
  HTTP 500 (\<open>TestClient_Search_ErrorHandling\<close>), one whose context is cancelled
  at the attempt numbered \<open>k\<close> after failures with HTTP 500, and a decoded
  payload without any of its sequence fields, as the JSON decoder yields for
  \<open>{"query": "golang"}\<close>.
\<close>

definition always_500 :: "nat \<Rightarrow> http_request \<Rightarrow> go_error + http_response" where
  "always_500 n r = Inr \<lparr>StatusCode = 500, Body = ''Internal Server Error''\<rparr>"

definition cancelled_at :: "nat \<Rightarrow> nat \<Rightarrow> http_request \<Rightarrow> go_error + http_response" where
  "cancelled_at k n r =
     (if n < k then Inr \<lparr>StatusCode = 500, Body = ''Internal Server Error''\<rparr>
      else Inl (Errorf (''Get '' @ req_url r @ '': context canceled'') [Canceled]))"

definition bare_payload :: APIResponse where
  "bare_payload =
     \<lparr>api_Query = ''golang'', api_NumberOfResults = 0, api_Results = None,
      api_Answers = None, api_Corrections = None, api_Infoboxes = None,
      api_Suggestions = None, api_UnresponsiveEngines = None\<rparr>"

definition mock_env :: "tick list \<Rightarrow> (nat \<Rightarrow> http_request \<Rightarrow> go_error + http_response) \<Rightarrow> env" where
  "mock_env schedule backend =
     \<lparr>ticks = schedule,
      url_Parse = (\<lambda>s. Inr (ParsedURL s)),
      resolve_search = (\<lambda>u. case u of ParsedURL s \<Rightarrow> s @ ''/search''),
      QueryEscape = (\<lambda>s. s),
      json_Marshal = (\<lambda>r. Inr (rq_Query r)),
      NewRequest = (\<lambda>m u. None),
      Do = backend,
      json_Decode = (\<lambda>b. if b = [] then Inl (ErrorString ''EOF'') else Inr bare_payload),
      time_Parse = go_time_Parse,
      time_Format = (\<lambda>t layout. layout),
      int_of_float64 = (\<lambda>f. case f of Finite x \<Rightarrow> \<lfloor>x\<rfloor> | _ \<Rightarrow> 0),
      float64_of_int = (\<lambda>i. Finite (of_int i)),
      json_MarshalIndent = (\<lambda>v. Inr [])\<rparr>"

definition mock_client :: "int \<Rightarrow> Client" where
  "mock_client n =
     \<lparr>config = DefaultConfig,
      rateLimiter = \<lparr>tokens = n, maxTokens = 10, refillRate = 100 * Millisecond, lastRefill = 0\<rparr>\<rparr>"

section \<open>Auxiliary facts\<close>

subsection \<open>The rate limiter\<close>

lemma wrap64_id: "- (2 ^ 63) \<le> x \<Longrightarrow> x < 2 ^ 63 \<Longrightarrow> wrap64 x = x"
  by (simp add: wrap64_def)

lemma time_Sub_bounds: "- (2 ^ 63) \<le> time_Sub t u \<and> time_Sub t u < 2 ^ 63"
  by (simp add: time_Sub_def Let_def minDuration_def maxDuration_def)

lemma time_Sub_nonneg: "u \<le> t \<Longrightarrow> 0 \<le> time_Sub t u"
  by (simp add: time_Sub_def Let_def minDuration_def maxDuration_def)

lemma sdiv_nonneg_pos: "0 \<le> (a::int) \<Longrightarrow> 0 < b \<Longrightarrow> a sdiv b = a div b"
  by (cases "a = 0") (simp_all add: signed_divide_int_def)

lemma sdiv_neg_pos: "(a::int) < 0 \<Longrightarrow> 0 < b \<Longrightarrow> a sdiv b = - (- a div b)"
  by (simp add: signed_divide_int_def)

text \<open>The number of whole intervals in an elapsed time, for a positive interval.\<close>

lemma tokensToAdd_nonneg:
  assumes "0 \<le> d" "d < 2 ^ 63" "0 < (r::int)"
  shows "wrap64 (d sdiv r) = d div r" and "0 \<le> d div r" and "d div r \<le> maxDuration div r"
proof -
  have le: "d div r \<le> maxDuration div r"
    using assms by (intro zdiv_mono1) (simp_all add: maxDuration_def)
  have "maxDuration div r \<le> maxDuration"
    by (intro int_div_le_self) (simp add: maxDuration_def)
  then have "d div r < 2 ^ 63" using le by (simp add: maxDuration_def)
  moreover have nn: "0 \<le> d div r" using assms by (simp add: pos_imp_zdiv_nonneg_iff)
  ultimately show "wrap64 (d sdiv r) = d div r"
    using assms by (simp add: sdiv_nonneg_pos wrap64_id)
  show "0 \<le> d div r" by (rule nn)
  show "d div r \<le> maxDuration div r" by (rule le)
qed

lemma tokensToAdd_neg:
  assumes "d < 0" "- (2 ^ 63) \<le> d" "0 < (r::int)"
  shows "wrap64 (d sdiv r) \<le> 0"
proof -
  have "0 \<le> - d div r" using assms by (simp add: pos_imp_zdiv_nonneg_iff)
  moreover have "- d div r \<le> - d" using assms by (intro int_div_le_self) simp
  ultimately have "- (2 ^ 63) \<le> - (- d div r)" "- (- d div r) \<le> 0" using assms by simp_all
  then show ?thesis using assms by (simp add: sdiv_neg_pos wrap64_id)
qed

lemma refill_too_early:
  assumes r: "0 < refillRate rl" and early: "time_Sub now (lastRefill rl) < refillRate rl"
  shows "refill rl now = Some rl"
proof -
  let ?d = "time_Sub now (lastRefill rl)"
  have "wrap64 (?d sdiv refillRate rl) \<le> 0"
  proof (cases "0 \<le> ?d")
    case True
    then have "?d div refillRate rl = 0" using early by (simp add: div_pos_pos_trivial)
    then show ?thesis using tokensToAdd_nonneg(1) [OF True _ r] time_Sub_bounds by simp
  next
    case False
    then show ?thesis using tokensToAdd_neg [OF _ _ r] time_Sub_bounds by simp
  qed
  then show ?thesis using r by (simp add: refill_def Let_def)
qed

lemma refill_total: "refillRate rl \<noteq> 0 \<Longrightarrow> \<exists>rl1. refill rl now = Some rl1"
  by (simp add: refill_def Let_def)

lemma refill_waiting:
  assumes wf: "rl_wf rl" and rf: "refill rl now = Some rl1" and w: "\<not> 0 < tokens rl1"
  shows "tokens rl1 = tokens rl \<and> rl_wf rl1"
proof (cases "0 \<le> time_Sub now (lastRefill rl)")
  case True
  let ?d = "time_Sub now (lastRefill rl)"
  let ?r = "refillRate rl"
  have r: "0 < ?r" and t: "0 \<le> tokens rl" "tokens rl \<le> maxTokens rl"
    and cap: "maxTokens rl + maxDuration div ?r \<le> maxDuration"
    using wf by (simp_all add: rl_wf_def)
  have d: "?d < 2 ^ 63" using time_Sub_bounds by simp
  note n = tokensToAdd_nonneg [OF True d r]
  have "tokens rl + ?d div ?r \<le> maxDuration" using t cap n(3) by linarith
  then have wr: "wrap64 (tokens rl + ?d div ?r) = tokens rl + ?d div ?r"
    using t n(2) by (intro wrap64_id) (simp_all add: maxDuration_def)
  show ?thesis
  proof (cases "0 < ?d div ?r")
    case True
    then have "rl1 = rl\<lparr>tokens := min (maxTokens rl) (tokens rl + ?d div ?r), lastRefill := now\<rparr>"
      using rf r n(1) wr by (simp add: refill_def Let_def)
    then show ?thesis using w t True wf by (auto simp: rl_wf_def min_def split: if_splits)
  next
    case False
    then have "rl1 = rl" using rf r n(1) by (simp add: refill_def Let_def)
    then show ?thesis using wf by simp
  qed
next
  case False
  have r: "0 < refillRate rl" using wf by (simp add: rl_wf_def)
  have "time_Sub now (lastRefill rl) < refillRate rl" using False r by linarith
  then have "refill rl now = Some rl" by (rule refill_too_early [OF r])
  then show ?thesis using rf wf by simp
qed

lemma wait_cancelled_tokens:
  "rl_wf rl \<Longrightarrow> wait rl schedule = Some (Cancelled err, rl') \<Longrightarrow> tokens rl' = tokens rl"
proof (induction schedule arbitrary: rl)
  case Nil
  then show ?case by simp
next
  case (Cons t schedule)
  obtain now sel where t: "t = (now, sel)" by (cases t)
  have "refillRate rl \<noteq> 0" using Cons.prems(1) by (simp add: rl_wf_def)
  then obtain rl1 where rf: "refill rl now = Some rl1" using refill_total by blast
  show ?case
  proof (cases "0 < tokens rl1")
    case True
    then show ?thesis using Cons.prems(2) t rf by simp
  next
    case False
    note k = refill_waiting [OF Cons.prems(1) rf False]
    show ?thesis
    proof (cases sel)
      case TimerFired
      then have "wait rl1 schedule = Some (Cancelled err, rl')"
        using Cons.prems(2) t rf False by simp
      then show ?thesis using Cons.IH [of rl1] k by simp
    next
      case (CtxDone x)
      then show ?thesis using Cons.prems(2) t rf False k by simp
    qed
  qed
qed

lemma wait_cancel_fires:
  assumes r: "0 < refillRate rl" and z: "tokens rl \<le> 0"
    and pre: "\<forall>t\<in>set pre. snd t = TimerFired \<and> time_Sub (fst t) (lastRefill rl) < refillRate rl"
    and now: "time_Sub now (lastRefill rl) < refillRate rl"
  shows "wait rl (pre @ (now, CtxDone err) # post) = Some (Cancelled err, rl)"
  using pre
proof (induction pre)
  case Nil
  then show ?case using refill_too_early [OF r now] z by simp
next
  case (Cons t pre)
  obtain n sel where t: "t = (n, sel)" by (cases t)
  have "refill rl n = Some rl" using Cons.prems t r by (intro refill_too_early) simp_all
  then show ?case using Cons t z by simp
qed

text \<open>The rate limiter of the client is well formed, and stays so.\<close>

lemma rl_wf_client: "rl_wf (newRateLimiter 10 (100 * Millisecond) now)"
  by (simp add: rl_wf_def newRateLimiter_def Millisecond_def maxDuration_def)

lemma refill_preserves_wf:
  assumes wf: "rl_wf rl" and rf: "refill rl now = Some rl1"
  shows "rl_wf rl1"
proof (cases "0 < tokens rl1")
  case False
  then show ?thesis using refill_waiting [OF wf rf] by simp
next
  case True
  let ?d = "time_Sub now (lastRefill rl)"
  let ?r = "refillRate rl"
  have r: "0 < ?r" and t: "0 \<le> tokens rl" "tokens rl \<le> maxTokens rl"
    and cap: "maxTokens rl + maxDuration div ?r \<le> maxDuration"
    using wf by (simp_all add: rl_wf_def)
  show ?thesis
  proof (cases "0 < wrap64 (?d sdiv ?r)")
    case False
    then have "rl1 = rl" using rf r by (simp add: refill_def Let_def)
    then show ?thesis using wf by simp
  next
    case pos: True
    then have eq: "rl1 = rl\<lparr>tokens := min (maxTokens rl) (wrap64 (tokens rl + wrap64 (?d sdiv ?r))),
                              lastRefill := now\<rparr>"
      using rf r by (simp add: refill_def Let_def)
    then have "tokens rl1 \<le> maxTokens rl" by simp
    then show ?thesis using True eq wf by (simp add: rl_wf_def)
  qed
qed

lemma wait_preserves_wf:
  "rl_wf rl \<Longrightarrow> wait rl schedule = Some (res, rl') \<Longrightarrow> rl_wf rl'"
proof (induction schedule arbitrary: rl)
  case Nil
  then show ?case by simp
next
  case (Cons t schedule)
  obtain now sel where t: "t = (now, sel)" by (cases t)
  have "refillRate rl \<noteq> 0" using Cons.prems(1) by (simp add: rl_wf_def)
  then obtain rl1 where rf: "refill rl now = Some rl1" using refill_total by blast
  have wf1: "rl_wf rl1" by (rule refill_preserves_wf [OF Cons.prems(1) rf])
  show ?case
  proof (cases "0 < tokens rl1")
    case True
    then have "rl' = rl1\<lparr>tokens := tokens rl1 - 1\<rparr>" using Cons.prems(2) t rf by simp
    then show ?thesis using wf1 True by (simp add: rl_wf_def)
  next
    case False
    show ?thesis
    proof (cases sel)
      case TimerFired
      then have "wait rl1 schedule = Some (res, rl')" using Cons.prems(2) t rf False by simp
      then show ?thesis using Cons.IH [OF wf1] by simp
    next
      case (CtxDone x)
      then show ?thesis using Cons.prems(2) t rf False wf1 by auto
    qed
  qed
qed

lemma Search_cancelled:
  "wait (rateLimiter c) (ticks e) = Some (Cancelled err, rl') \<Longrightarrow>
   Search e c req = Some (Failure (wrap2 ErrTimeout err), rl', [])"
  by (simp add: Search_def)

lemma SearchJSON_cancelled:
  "wait (rateLimiter c) (ticks e) = Some (Cancelled err, rl') \<Longrightarrow>
   SearchJSON e c req = Some (Failure (wrap2 ErrTimeout err), rl', [])"
  by (simp add: SearchJSON_def)

lemma errors_Is_refl: "errors_Is a a"
  by (cases a) simp_all

lemma Is_wrap2_left: "errors_Is (wrap2 a b) a"
  by (simp add: wrap2_def errors_Is_refl)

subsection \<open>The request does not depend on the limit\<close>

lemma applyDefaults_Limit: "applyDefaults (req\<lparr>Limit := l\<rparr>) = (applyDefaults req)\<lparr>Limit := Limit (applyDefaults (req\<lparr>Limit := l\<rparr>))\<rparr>"
  by (simp add: applyDefaults_def Let_def)

lemma buildSearchURL_Limit: "buildSearchURL e cfg (req\<lparr>Limit := l\<rparr>) = buildSearchURL e cfg req"
  by (simp add: buildSearchURL_def cong: if_cong sum.case_cong)

lemma apiReq_Limit: "apiReq (req\<lparr>Limit := l\<rparr>) = apiReq req"
  by (simp add: apiReq_def)

lemma Search_Limit: "Search e c (req\<lparr>Limit := l\<rparr>) = Search e c req"
  unfolding Search_def Let_def
  by (subst applyDefaults_Limit) (simp only: buildSearchURL_Limit)

lemma SearchJSON_Limit: "SearchJSON e c (req\<lparr>Limit := l\<rparr>) = SearchJSON e c req"
  unfolding SearchJSON_def Let_def
  by (subst applyDefaults_Limit) (simp only: apiReq_Limit)

lemma len_toSearchResponse: "len (rs_Results (toSearchResponse parse r)) = len (api_Results r)"
  by (simp add: toSearchResponse_def len_def elems_def)

subsection \<open>The retry loop\<close>

lemma sleep_seconds:
  assumes "0 \<le> a" "a \<le> 9223372036"
  shows "wrap64 (a * Second) = a * Second"
proof -
  have "a * Second \<le> 9223372036 * Second"
    using assms by (intro mult_right_mono) (simp_all add: Second_def)
  moreover have "0 \<le> a * Second" using assms by (simp add: Second_def)
  ultimately show ?thesis by (intro wrap64_id) (simp_all add: Second_def)
qed

lemma attempts_events_empty: "attempts_events d n n = []"
  by (simp add: attempts_events_def)

lemma attempts_events_step:
  "a < b \<Longrightarrow> attempts_events d a b =
     (if 0 < a then [Sleep (int a * Second)] else []) @ snd (d a) @ attempts_events d (Suc a) b"
  by (simp add: attempts_events_def upt_conv_Cons)

lemma retryLoop_fail_step:
  assumes "a \<le> m" "0 \<le> a" "a \<le> 9223372036" "d (nat a) = (Inl err, evs)" "retried err"
  shows "retryLoop d m a l =
           (fst (retryLoop d m (a + 1) (Some err)),
            (if 0 < a then [Sleep (a * Second)] else []) @ evs @ snd (retryLoop d m (a + 1) (Some err)))"
  using assms
  by (subst retryLoop.simps) (simp add: retried_def sleep_seconds split: prod.split)

lemma retryLoop_cancel_step:
  assumes "a \<le> m" "0 \<le> a" "a \<le> 9223372036" "d (nat a) = (Inl err, evs)" "\<not> retried err"
  shows "retryLoop d m a l = (Failure err, (if 0 < a then [Sleep (a * Second)] else []) @ evs)"
  using assms
  by (subst retryLoop.simps) (auto simp: retried_def sleep_seconds)

lemma retryLoop_done: "m < a \<Longrightarrow> retryLoop d m a l = (Failure (wrap2_opt ErrRequestFailed l), [])"
  by (subst retryLoop.simps) simp

lemma retryLoop_all_fail:
  assumes "0 \<le> a" "a \<le> m + 1" "m \<le> 9223372036"
    and "\<forall>n. nat a \<le> n \<and> n \<le> nat m \<longrightarrow> (\<exists>err. fst (d n) = Inl err \<and> retried err)"
  shows "retryLoop d m a l =
           (Failure (wrap2_opt ErrRequestFailed
                      (if a \<le> m then (case fst (d (nat m)) of Inl err \<Rightarrow> Some err | Inr r \<Rightarrow> None) else l)),
            attempts_events d (nat a) (nat (m + 1)))"
  using assms
proof (induction "nat (m + 1 - a)" arbitrary: a l)
  case 0
  then have "a = m + 1" by simp
  then show ?case by (simp add: retryLoop_done attempts_events_empty)
next
  case (Suc k)
  then have am: "a \<le> m" by linarith
  have "nat a \<le> nat m" using am by simp
  then obtain err where e: "fst (d (nat a)) = Inl err" "retried err"
    using Suc.prems(4) by blast
  then obtain evs where d: "d (nat a) = (Inl err, evs)" by (cases "d (nat a)") simp
  have IH: "retryLoop d m (a + 1) (Some err) =
      (Failure (wrap2_opt ErrRequestFailed
                  (if a + 1 \<le> m then (case fst (d (nat m)) of Inl err \<Rightarrow> Some err | Inr r \<Rightarrow> None) else Some err)),
       attempts_events d (nat (a + 1)) (nat (m + 1)))"
  proof (rule Suc.hyps(1))
    show "k = nat (m + 1 - (a + 1))" using Suc.hyps(2) by linarith
    show "0 \<le> a + 1" using Suc.prems(1) by simp
    show "a + 1 \<le> m + 1" using am by simp
    show "m \<le> 9223372036" by (rule Suc.prems(3))
    show "\<forall>n. nat (a + 1) \<le> n \<and> n \<le> nat m \<longrightarrow> (\<exists>err. fst (d n) = Inl err \<and> retried err)"
      using Suc.prems(4) Suc.prems(1) by (simp add: nat_add_distrib)
  qed
  have last: "(if a + 1 \<le> m then (case fst (d (nat m)) of Inl err \<Rightarrow> Some err | Inr r \<Rightarrow> None) else Some err)
      = (case fst (d (nat m)) of Inl err \<Rightarrow> Some err | Inr r \<Rightarrow> None)"
  proof (cases "a + 1 \<le> m")
    case True then show ?thesis by simp
  next
    case False
    then have "a = m" using am by simp
    then show ?thesis using e by simp
  qed
  have lt: "nat a < nat (m + 1)" using am Suc.prems(1) by simp
  have a9: "a \<le> 9223372036" using am Suc.prems(3) by simp
  have sa: "Suc (nat a) = nat (a + 1)" using Suc.prems(1) by simp
  show ?case
    using Suc.prems(1) am
    by (simp add: retryLoop_fail_step [where d = d, OF am Suc.prems(1) a9 d e(2)] IH last
        attempts_events_step [OF lt] d sa)
qed

lemma retryLoop_stops:
  assumes "0 \<le> a" "a \<le> int k" "int k \<le> m" "int k \<le> 9223372036"
    and "\<forall>n. nat a \<le> n \<and> n < k \<longrightarrow> (\<exists>err. fst (d n) = Inl err \<and> retried err)"
    and "fst (d k) = Inl err" "\<not> retried err"
  shows "retryLoop d m a l = (Failure err, attempts_events d (nat a) (Suc k))"
  using assms(1,2,5)
proof (induction "k - nat a" arbitrary: a l)
  case 0
  then have ak: "a = int k" by linarith
  obtain evs where d: "d (nat a) = (Inl err, evs)" using assms(6) ak by (cases "d k") simp
  have am: "a \<le> m" and a9: "a \<le> 9223372036" using ak assms(3,4) by simp_all
  show ?case
    using retryLoop_cancel_step [where d = d, OF am "0.prems"(1) a9 d assms(7)] ak d
    by (simp add: attempts_events_step attempts_events_empty)
next
  case (Suc j)
  then have ak: "a < int k" by linarith
  then have am: "a \<le> m" and a9: "a \<le> 9223372036" using assms(3,4) by simp_all
  have "nat a < k" using ak Suc.prems(1) by linarith
  then obtain err' where e: "fst (d (nat a)) = Inl err'" "retried err'"
    using Suc.prems(3) by blast
  then obtain evs where d: "d (nat a) = (Inl err', evs)" by (cases "d (nat a)") simp
  have IH: "retryLoop d m (a + 1) (Some err') = (Failure err, attempts_events d (nat (a + 1)) (Suc k))"
  proof (rule Suc.hyps(1))
    show "j = k - nat (a + 1)" using Suc.hyps(2) Suc.prems(1) by linarith
    show "0 \<le> a + 1" using Suc.prems(1) by simp
    show "a + 1 \<le> int k" using ak by simp
    show "\<forall>n. nat (a + 1) \<le> n \<and> n < k \<longrightarrow> (\<exists>err. fst (d n) = Inl err \<and> retried err)"
      using Suc.prems(3) Suc.prems(1) by (simp add: nat_add_distrib)
  qed
  have lt: "nat a < Suc k" using ak Suc.prems(1) by linarith
  have sa: "Suc (nat a) = nat (a + 1)" using Suc.prems(1) by simp
  show ?case
    using Suc.prems(1)
    by (simp add: retryLoop_fail_step [where d = d, OF am Suc.prems(1) a9 d e(2)] IH
        attempts_events_step [OF lt] d sa)
qed

subsection \<open>Events of the attempts\<close>

lemma sleeps_append: "sleeps (xs @ ys) = sleeps xs @ sleeps ys"
  by (induction xs rule: sleeps.induct) simp_all

lemma calls_append: "calls (xs @ ys) = calls xs @ calls ys"
  by (induction xs rule: calls.induct) simp_all

lemma sleeps_attempts_events:
  assumes "\<forall>n. sleeps (snd (d n)) = []"
  shows "sleeps (attempts_events d a b) = map (\<lambda>n. int n * Second) (filter (\<lambda>n. 0 < n) [a..<b])"
proof (induction b)
  case 0
  then show ?case by (simp add: attempts_events_def)
next
  case (Suc b)
  then show ?case using assms by (simp add: attempts_events_def sleeps_append)
qed

lemma filter_pos_upt: "filter (\<lambda>n. 0 < n) [0..<Suc m] = [1..<Suc m]"
proof -
  have "[0..<Suc m] = 0 # [1..<Suc m]" by (simp add: upt_rec)
  moreover have "filter (\<lambda>n. 0 < n) [1..<Suc m] = [1..<Suc m]"
    unfolding filter_id_conv by (auto simp del: upt_Suc)
  ultimately show ?thesis by simp
qed

lemma sleeps_attempts_from_0:
  assumes "\<forall>n. sleeps (snd (d n)) = []"
  shows "sleeps (attempts_events d 0 (m + 1)) = map (\<lambda>n. int n * Second) [1..<m + 1]"
  unfolding sleeps_attempts_events [OF assms] Suc_eq_plus1 [symmetric] filter_pos_upt ..

lemma calls_attempts_events:
  assumes "\<forall>n. length (calls (snd (d n))) = 1"
  shows "length (calls (attempts_events d a b)) = b - a"
proof (induction b)
  case 0
  then show ?case by (simp add: attempts_events_def)
next
  case (Suc b)
  then show ?case using assms by (auto simp: attempts_events_def calls_append)
qed

lemma sleeps_doSearchRequest: "sleeps (snd (doSearchRequest e cfg n u)) = []"
  by (simp add: doSearchRequest_def Let_def split: option.split sum.split)

lemma calls_doSearchRequest:
  "NewRequest e ''GET'' u = None \<Longrightarrow> length (calls (snd (doSearchRequest e cfg n u))) = 1"
  by (simp add: doSearchRequest_def Let_def split: option.split sum.split)

lemma sleeps_doSearchJSONRequest: "sleeps (snd (doSearchJSONRequest e cfg n u b)) = []"
  by (simp add: doSearchJSONRequest_def Let_def split: option.split sum.split)

lemma Search_retry:
  assumes "wait (rateLimiter c) (ticks e) = Some (Acquired, rl)"
    and "buildSearchURL e (config c) (applyDefaults req) = Inr apiURL"
  shows "Search e c req =
           Some (fst (retryLoop (\<lambda>n. doSearchRequest e (config c) n apiURL) (MaxRetries (config c)) 0 None),
                 rl,
                 snd (retryLoop (\<lambda>n. doSearchRequest e (config c) n apiURL) (MaxRetries (config c)) 0 None))"
  using assms by (simp add: Search_def split: prod.split)

lemma SearchJSON_retry:
  assumes "wait (rateLimiter c) (ticks e) = Some (Acquired, rl)"
    and "url_Parse e (BaseURL (config c)) = Inr baseURL"
    and "json_Marshal e (apiReq (applyDefaults req)) = Inr body"
  shows "SearchJSON e c req =
           Some (fst (retryLoop (\<lambda>n. doSearchJSONRequest e (config c) n (resolve_search e baseURL) body)
                        (MaxRetries (config c)) 0 None),
                 rl,
                 snd (retryLoop (\<lambda>n. doSearchJSONRequest e (config c) n (resolve_search e baseURL) body)
                        (MaxRetries (config c)) 0 None))"
  using assms by (simp add: SearchJSON_def split: prod.split)

lemma Error_wrap2: "Error (wrap2 a b) = Error a @ '': '' @ Error b"
  by (simp add: wrap2_def)

lemma Is_wrap2_right: "errors_Is (wrap2 a b) b"
  by (simp add: wrap2_def errors_Is_refl)

lemma doSearchRequest_status:
  assumes "NewRequest e ''GET'' u = None"
    and "\<forall>r. Do e n r = Inr \<lparr>StatusCode = s, Body = b\<rparr>" and "s < 200 \<or> 300 \<le> s"
  shows "fst (doSearchRequest e cfg n u) = Inl (ErrorString (''HTTP '' @ Itoa s @ '': '' @ b))"
  using assms by (simp add: doSearchRequest_def Let_def)

lemma Itoa_500: "Itoa 500 = ''500''"
  by code_simp

lemma retried_ErrorString: "retried (ErrorString s)"
  by (simp add: retried_def)

subsection \<open>Trying the formats in order\<close>

lemma tryFormats_Some:
  "tryFormats parse fs s = Some t \<longleftrightarrow>
     (\<exists>i<length fs. parse (fs ! i) s = Inr t \<and> (\<forall>j<i. \<exists>err. parse (fs ! j) s = Inl err))"
proof (induction fs)
  case Nil
  then show ?case by simp
next
  case (Cons f fs)
  show ?case
  proof (cases "parse f s")
    case (Inl err)
    have "(\<exists>i<length (f # fs). parse ((f # fs) ! i) s = Inr t \<and> (\<forall>j<i. \<exists>err. parse ((f # fs) ! j) s = Inl err))
        \<longleftrightarrow> (\<exists>i<length fs. parse (fs ! i) s = Inr t \<and> (\<forall>j<i. \<exists>err. parse (fs ! j) s = Inl err))"
      (is "?L \<longleftrightarrow> ?R")
    proof
      assume ?L
      then obtain i where i: "i < length (f # fs)" "parse ((f # fs) ! i) s = Inr t"
        "\<forall>j<i. \<exists>err. parse ((f # fs) ! j) s = Inl err" by blast
      then obtain i' where i': "i = Suc i'" using Inl by (cases i) auto
      have "\<forall>j<i'. \<exists>err. parse (fs ! j) s = Inl err"
      proof (intro allI impI)
        fix j assume "j < i'"
        then have "Suc j < i" using i' by simp
        then show "\<exists>err. parse (fs ! j) s = Inl err" using i(3) by fastforce
      qed
      then show ?R using i i' by auto
    next
      assume ?R
      then obtain i where i: "i < length fs" "parse (fs ! i) s = Inr t"
        "\<forall>j<i. \<exists>err. parse (fs ! j) s = Inl err" by blast
      have "\<forall>j<Suc i. \<exists>err. parse ((f # fs) ! j) s = Inl err"
        using i(3) Inl by (auto simp: nth_Cons split: nat.split)
      then show ?L using i by (intro exI [of _ "Suc i"]) simp
    qed
    then show ?thesis using Inl Cons.IH by simp
  next
    case (Inr t')
    have "(\<exists>i<length (f # fs). parse ((f # fs) ! i) s = Inr t \<and> (\<forall>j<i. \<exists>err. parse ((f # fs) ! j) s = Inl err))
        \<longleftrightarrow> t' = t" (is "?L \<longleftrightarrow> _")
    proof
      assume ?L
      then obtain i where i: "parse ((f # fs) ! i) s = Inr t"
        "\<forall>j<i. \<exists>err. parse ((f # fs) ! j) s = Inl err" by blast
      have "i = 0"
      proof (rule ccontr)
        assume "i \<noteq> 0"
        then have "\<exists>err. parse ((f # fs) ! 0) s = Inl err" using i(2) by blast
        then show False using Inr by simp
      qed
      then show "t' = t" using i(1) Inr by simp
    next
      assume "t' = t"
      then show ?L using Inr by (intro exI [of _ 0]) simp
    qed
    then show ?thesis using Inr by simp
  qed
qed

lemma tryFormats_None:
  "tryFormats parse fs s = None \<longleftrightarrow> (\<forall>i<length fs. \<exists>err. parse (fs ! i) s = Inl err)"
proof (induction fs)
  case Nil
  then show ?case by simp
next
  case (Cons f fs)
  show ?case
  proof (cases "parse f s")
    case (Inl err)
    then show ?thesis using Cons.IH
      by (auto simp: nth_Cons less_Suc_eq_0_disj split: nat.split)
  next
    case (Inr t')
    then show ?thesis by (auto intro: exI [of _ 0])
  qed
qed

lemma formats_strings:
  "formats = [''2006-01-02T15:04:05Z07:00'', ''2006-01-02T15:04:05Z'', ''2006-01-02 15:04:05'',
              ''2006-01-02'']"
  by (simp add: formats_def RFC3339_def)

lemma parse_example_rfc3339: "map_option Year (parsePublishedDate go_time_Parse ''2024-01-15T10:30:00Z'') = Some 2024"
  by code_simp

lemma parse_example_date_only: "map_option Year (parsePublishedDate go_time_Parse ''2024-01-15'') = Some 2024"
  by code_simp

lemma parse_example_not_a_date: "parsePublishedDate go_time_Parse ''not-a-date'' = None"
  by code_simp

lemma parse_example_no_zone: "parsePublishedDate go_time_Parse ''2024-01-15T10:30:00'' = None"
  by code_simp

subsection \<open>Trimming white space\<close>

lemma space_encodings_nonempty: "e \<in> set space_encodings \<Longrightarrow> e \<noteq> []"
  by (auto simp: space_encodings_def)

lemma trim_prefixes_suffix: "suffix (trim_prefixes encs s) s"
proof (induction encs s rule: trim_prefixes.induct)
  case (1 encs s)
  show ?case
  proof (cases "find (\<lambda>e. e \<noteq> [] \<and> prefix e s) encs")
    case None
    then show ?thesis by (subst trim_prefixes.simps) simp
  next
    case (Some e)
    then have "suffix (trim_prefixes encs (drop (length e) s)) (drop (length e) s)"
      using 1 by simp
    then have "suffix (trim_prefixes encs (drop (length e) s)) s"
      using suffix_drop suffix_order.trans by blast
    then show ?thesis using Some by (subst trim_prefixes.simps) simp
  qed
qed

lemma trim_prefixes_no_prefix:
  "e \<in> set encs \<Longrightarrow> e \<noteq> [] \<Longrightarrow> \<not> prefix e (trim_prefixes encs s)"
proof (induction encs s rule: trim_prefixes.induct)
  case (1 encs s)
  show ?case
  proof (cases "find (\<lambda>e. e \<noteq> [] \<and> prefix e s) encs")
    case None
    then have "\<not> prefix e s" using 1(2,3) by (auto simp: find_None_iff)
    then show ?thesis using None by (subst trim_prefixes.simps) simp
  next
    case (Some e')
    then show ?thesis using 1 by (subst trim_prefixes.simps) simp
  qed
qed

lemma TrimLeft_no_prefix: "e \<in> set space_encodings \<Longrightarrow> \<not> prefix e (TrimLeft s)"
  unfolding TrimLeft_def by (intro trim_prefixes_no_prefix space_encodings_nonempty)

lemma TrimRight_no_suffix: "e \<in> set space_encodings \<Longrightarrow> \<not> suffix e (TrimRight s)"
proof -
  assume e: "e \<in> set space_encodings"
  then have "rev e \<in> set (map rev space_encodings)" "rev e \<noteq> []"
    using space_encodings_nonempty by auto
  then have "\<not> prefix (rev e) (trim_prefixes (map rev space_encodings) (rev s))"
    by (rule trim_prefixes_no_prefix)
  then show ?thesis by (simp add: TrimRight_def suffix_to_prefix)
qed

lemma TrimRight_prefix: "prefix (TrimRight s) s"
  using trim_prefixes_suffix [of "map rev space_encodings" "rev s"]
  by (simp add: TrimRight_def suffix_to_prefix)

lemma TrimLeft_suffix: "suffix (TrimLeft s) s"
  by (simp add: TrimLeft_def trim_prefixes_suffix)

lemma trimmed_TrimSpace: "trimmed (TrimSpace s)"
  unfolding trimmed_def TrimSpace_def
proof (intro ballI conjI)
  fix e assume e: "e \<in> set space_encodings"
  show "\<not> prefix e (TrimRight (TrimLeft s))"
  proof
    assume "prefix e (TrimRight (TrimLeft s))"
    then have "prefix e (TrimLeft s)" using TrimRight_prefix prefix_order.trans by blast
    then show False using TrimLeft_no_prefix [OF e] by simp
  qed
  show "\<not> suffix e (TrimRight (TrimLeft s))" by (rule TrimRight_no_suffix [OF e])
qed

lemma trimmed_Nil: "trimmed []"
  using space_encodings_nonempty by (auto simp: trimmed_def)

lemma set_TrimSpace: "set (TrimSpace s) \<subseteq> set s"
proof -
  have "set (TrimRight (TrimLeft s)) \<subseteq> set (TrimLeft s)"
    using TrimRight_prefix set_mono_prefix by blast
  moreover have "set (TrimLeft s) \<subseteq> set s" using TrimLeft_suffix set_mono_suffix by blast
  ultimately show ?thesis by (simp add: TrimSpace_def)
qed

subsection \<open>\<open>Split\<close> and \<open>Join\<close>\<close>

lemma Split_not_Nil: "Split s \<noteq> []"
  by (induction s) (auto split: list.split)

lemma Split_no_newline: "l \<in> set (Split s) \<Longrightarrow> newline \<notin> set l"
proof (induction s arbitrary: l)
  case Nil
  then show ?case by simp
next
  case (Cons c cs)
  then show ?case using Split_not_Nil [of cs]
    by (cases "Split cs") (auto split: if_splits)
qed

lemma Split_line: "newline \<notin> set l \<Longrightarrow> Split l = [l]"
  by (induction l) auto

lemma Split_line_newline: "newline \<notin> set l \<Longrightarrow> Split (l @ newline # rest) = l # Split rest"
  by (induction l) auto

lemma Split_Join:
  "ls \<noteq> [] \<Longrightarrow> \<forall>l\<in>set ls. newline \<notin> set l \<Longrightarrow> Split (Join ls [newline]) = ls"
proof (induction ls "[newline]" rule: Join.induct)
  case 1
  then show ?case by simp
next
  case (2 x)
  then show ?case by (simp add: Split_line)
next
  case (3 x y ys)
  then show ?case by (simp add: Split_line_newline)
qed

subsection \<open>Runs of empty lines and the loops of \<open>cleanMarkdown\<close>\<close>

lemma no_three_blank_Cons_nonblank:
  assumes "x \<noteq> []" "no_three_blank xs"
  shows "no_three_blank (x # xs)"
  unfolding no_three_blank_def
proof (intro allI impI)
  fix i assume i: "i + 2 < length (x # xs)"
  show "\<not> ((x # xs) ! i = [] \<and> (x # xs) ! (i + 1) = [] \<and> (x # xs) ! (i + 2) = [])"
  proof (cases i)
    case 0
    then show ?thesis using assms(1) by simp
  next
    case (Suc j)
    then have "j + 2 < length xs" using i by simp
    then have "\<not> (xs ! j = [] \<and> xs ! (j + 1) = [] \<and> xs ! (j + 2) = [])"
      using assms(2) by (simp add: no_three_blank_def)
    then show ?thesis using Suc by simp
  qed
qed

lemma no_three_blank_Cons_blank:
  assumes "no_three_blank xs" "length (takeWhile (\<lambda>l. l = []) xs) \<le> 1"
  shows "no_three_blank (x # xs)"
  unfolding no_three_blank_def
proof (intro allI impI)
  fix i assume i: "i + 2 < length (x # xs)"
  show "\<not> ((x # xs) ! i = [] \<and> (x # xs) ! (i + 1) = [] \<and> (x # xs) ! (i + 2) = [])"
  proof (cases i)
    case 0
    then obtain a b r where xs: "xs = a # b # r" using i
      by (cases xs; cases "tl xs") auto
    then have "\<not> (a = [] \<and> b = [])" using assms(2) by auto
    then show ?thesis using 0 xs by simp
  next
    case (Suc j)
    then have "j + 2 < length xs" using i by simp
    then have "\<not> (xs ! j = [] \<and> xs ! (j + 1) = [] \<and> xs ! (j + 2) = [])"
      using assms(1) by (simp add: no_three_blank_def)
    then show ?thesis using Suc by simp
  qed
qed

lemma no_three_blank_drop: "no_three_blank xs \<Longrightarrow> no_three_blank (drop k xs)"
  unfolding no_three_blank_def
proof (intro allI impI)
  fix i
  assume a: "\<forall>i. i + 2 < length xs \<longrightarrow> \<not> (xs ! i = [] \<and> xs ! (i + 1) = [] \<and> xs ! (i + 2) = [])"
    and i: "i + 2 < length (drop k xs)"
  then have "(k + i) + 2 < length xs" by simp
  then have "\<not> (xs ! (k + i) = [] \<and> xs ! (k + i + 1) = [] \<and> xs ! (k + i + 2) = [])"
    using a by blast
  then show "\<not> (drop k xs ! i = [] \<and> drop k xs ! (i + 1) = [] \<and> drop k xs ! (i + 2) = [])"
    using i by (simp add: add.assoc)
qed

lemma no_three_blank_take: "no_three_blank xs \<Longrightarrow> no_three_blank (take k xs)"
  unfolding no_three_blank_def
proof (intro allI impI)
  fix i
  assume a: "\<forall>i. i + 2 < length xs \<longrightarrow> \<not> (xs ! i = [] \<and> xs ! (i + 1) = [] \<and> xs ! (i + 2) = [])"
    and i: "i + 2 < length (take k xs)"
  then have "i + 2 < length xs" "i + 2 < k" by simp_all
  then show "\<not> (take k xs ! i = [] \<and> take k xs ! (i + 1) = [] \<and> take k xs ! (i + 2) = [])"
    using a by simp
qed

subsection \<open>The three loops of cleanMarkdown\<close>

lemma collapse_appends:
  assumes "\<forall>l\<in>set lines. newline \<notin> set l" "0 \<le> n"
  shows "\<exists>rest. collapse lines n cleaned = cleaned @ rest
           \<and> no_three_blank rest
           \<and> int (length (takeWhile (\<lambda>l. l = []) rest)) \<le> max 0 (2 - n)
           \<and> (\<forall>l\<in>set rest. trimmed l \<and> newline \<notin> set l)"
  using assms
proof (induction lines arbitrary: n cleaned)
  case Nil
  then show ?case by (simp add: no_three_blank_def)
next
  case (Cons line lines)
  have nl: "\<forall>l\<in>set lines. newline \<notin> set l" using Cons.prems(1) by simp
  show ?case
  proof (cases "TrimSpace line = []")
    case True
    show ?thesis
    proof (cases "n + 1 \<le> 2")
      case le: True
      obtain rest where r: "collapse lines (n + 1) (cleaned @ [[]]) = (cleaned @ [[]]) @ rest"
        "no_three_blank rest" "int (length (takeWhile (\<lambda>l. l = []) rest)) \<le> max 0 (2 - (n + 1))"
        "\<forall>l\<in>set rest. trimmed l \<and> newline \<notin> set l"
        using Cons.IH [OF nl, of "n + 1" "cleaned @ [[]]"] Cons.prems(2) by auto
      have "length (takeWhile (\<lambda>l. l = []) rest) \<le> 1" using r(3) Cons.prems(2) by simp
      then have "no_three_blank ([] # rest)" using r(2) by (intro no_three_blank_Cons_blank)
      moreover have "int (length (takeWhile (\<lambda>l. l = []) ([] # rest))) \<le> max 0 (2 - n)"
        using r(3) le by simp
      ultimately show ?thesis
        using True le r(1,4) by (intro exI [of _ "[] # rest"]) (simp add: trimmed_Nil)
    next
      case gt: False
      obtain rest where r: "collapse lines (n + 1) cleaned = cleaned @ rest"
        "no_three_blank rest" "int (length (takeWhile (\<lambda>l. l = []) rest)) \<le> max 0 (2 - (n + 1))"
        "\<forall>l\<in>set rest. trimmed l \<and> newline \<notin> set l"
        using Cons.IH [OF nl, of "n + 1" cleaned] Cons.prems(2) by auto
      have "int (length (takeWhile (\<lambda>l. l = []) rest)) \<le> max 0 (2 - n)" using r(3) by simp
      then show ?thesis using True gt r(1,2,4) by (intro exI [of _ rest]) simp
    qed
  next
    case False
    obtain rest where r: "collapse lines 0 (cleaned @ [TrimSpace line]) = (cleaned @ [TrimSpace line]) @ rest"
      "no_three_blank rest" "\<forall>l\<in>set rest. trimmed l \<and> newline \<notin> set l"
      using Cons.IH [OF nl, of 0 "cleaned @ [TrimSpace line]"] by auto
    have "no_three_blank (TrimSpace line # rest)"
      using False r(2) by (intro no_three_blank_Cons_nonblank)
    moreover have "newline \<notin> set (TrimSpace line)"
      using set_TrimSpace [of line] Cons.prems(1) by auto
    ultimately show ?thesis
      using False r(1,3)
      by (intro exI [of _ "TrimSpace line # rest"]) (simp add: trimmed_TrimSpace)
  qed
qed

lemma trimLeading_dropWhile: "trimLeading ls = dropWhile (\<lambda>l. l = []) ls"
  by (induction ls) simp_all

lemma trimTrailing_prefix: "prefix (trimTrailing ls) ls"
proof (induction ls rule: trimTrailing.induct)
  case (1 cleaned)
  show ?case
  proof (cases "cleaned \<noteq> [] \<and> last cleaned = []")
    case True
    then have "prefix (trimTrailing (butlast cleaned)) (butlast cleaned)" using 1 by simp
    then have "prefix (trimTrailing (butlast cleaned)) cleaned"
      using prefixeq_butlast prefix_order.trans by blast
    then show ?thesis using True by (subst trimTrailing.simps) simp
  next
    case False
    then show ?thesis by (subst trimTrailing.simps) auto
  qed
qed

lemma trimTrailing_last: "trimTrailing ls \<noteq> [] \<Longrightarrow> last (trimTrailing ls) \<noteq> []"
proof (induction ls rule: trimTrailing.induct)
  case (1 cleaned)
  show ?case
  proof (cases "cleaned \<noteq> [] \<and> last cleaned = []")
    case True
    then have eq: "trimTrailing cleaned = trimTrailing (butlast cleaned)"
      by (subst trimTrailing.simps) simp
    then show ?thesis using 1 True by simp
  next
    case False
    then have "trimTrailing cleaned = cleaned" by (subst trimTrailing.simps) auto
    then show ?thesis using False 1(2) by auto
  qed
qed

lemma prefix_take_length: "prefix ys xs \<Longrightarrow> take (length ys) xs = ys"
  by (auto simp: prefix_def)

lemma prefix_hd: "prefix ys xs \<Longrightarrow> ys \<noteq> [] \<Longrightarrow> hd ys = hd xs"
  by (metis hd_append2 prefix_def)

lemma cleanMarkdown_cleaned:
  "\<exists>cleaned. cleanMarkdown markdown = Join cleaned [newline]
      \<and> no_three_blank cleaned
      \<and> (\<forall>l\<in>set cleaned. trimmed l \<and> newline \<notin> set l)
      \<and> (cleaned \<noteq> [] \<longrightarrow> hd cleaned \<noteq> [] \<and> last cleaned \<noteq> [])"
proof -
  have "\<forall>l\<in>set (Split markdown). newline \<notin> set l" using Split_no_newline by blast
  then obtain c0 where c0: "collapse (Split markdown) 0 [] = c0" "no_three_blank c0"
    "\<forall>l\<in>set c0. trimmed l \<and> newline \<notin> set l"
    using collapse_appends [of "Split markdown" 0 "[]"] by auto
  let ?c1 = "trimLeading c0"
  let ?c2 = "trimTrailing ?c1"
  have c1: "?c1 = drop (length (takeWhile (\<lambda>l. l = []) c0)) c0"
    by (simp add: trimLeading_dropWhile dropWhile_eq_drop)
  have n1: "no_three_blank ?c1" unfolding c1 using c0(2) by (rule no_three_blank_drop)
  have s1: "set ?c1 \<subseteq> set c0" unfolding c1 by (rule set_drop_subset)
  have h1: "?c1 \<noteq> [] \<Longrightarrow> hd ?c1 \<noteq> []"
    unfolding trimLeading_dropWhile using hd_dropWhile [of "\<lambda>l. l = []" c0] by simp
  have p2: "prefix ?c2 ?c1" by (rule trimTrailing_prefix)
  then have "take (length ?c2) ?c1 = ?c2" by (rule prefix_take_length)
  then have t2: "?c2 = take (length ?c2) ?c1" by simp
  have n2: "no_three_blank ?c2" by (subst t2) (rule no_three_blank_take [OF n1])
  have s2: "set ?c2 \<subseteq> set c0" using set_mono_prefix [OF p2] s1 by simp
  have h2: "?c2 \<noteq> [] \<Longrightarrow> hd ?c2 \<noteq> []"
  proof -
    assume ne: "?c2 \<noteq> []"
    then have "?c1 \<noteq> []" using p2 by auto
    moreover have "hd ?c2 = hd ?c1" using p2 ne by (rule prefix_hd)
    ultimately show ?thesis using h1 by simp
  qed
  have l2: "?c2 \<noteq> [] \<Longrightarrow> last ?c2 \<noteq> []" by (rule trimTrailing_last)
  have "cleanMarkdown markdown = Join ?c2 [newline]"
    by (simp add: cleanMarkdown_def Let_def c0(1))
  then show ?thesis using n2 s2 c0(3) h2 l2 by (intro exI [of _ ?c2]) auto
qed

subsection \<open>The early returns of the \<open>web_search\<close> handler\<close>

lemma handleWebSearch_error_nil:
  "handleWebSearch e c a = Some (Returned r err, rl, evs) \<Longrightarrow> err = None"
  unfolding handleWebSearch_def Let_def
  by (auto split: any.splits prod.splits option.splits search_result.splits sum.splits if_splits)

lemma handleWebSearch_not_a_map:
  "\<forall>args. a \<noteq> AnyMap args \<Longrightarrow>
   handleWebSearch e c a
     = Some (Returned (NewToolResultError ''invalid arguments format'') None, rateLimiter c, [])"
  unfolding handleWebSearch_def by (cases a) simp_all

lemma handleWebSearch_no_query:
  assumes "map_of args ''query'' = None
         \<or> map_of args ''query'' = Some (AnyString [])
         \<or> (\<exists>v. map_of args ''query'' = Some v \<and> (\<forall>s. v \<noteq> AnyString s))"
  shows "handleWebSearch e c (AnyMap args)
     = Some (Returned (NewToolResultError ''query is required'') None, rateLimiter c, [])"
proof -
  have "snd (assert_string (index args ''query'')) = False
      \<or> fst (assert_string (index args ''query'')) = []"
    using assms by (auto simp: index_def assert_string_def split: any.splits)
  then show ?thesis
    unfolding handleWebSearch_def by (auto split: prod.splits)
qed

section \<open>The claims\<close>

subsection \<open>C1: the refill step\<close>

text \<open>
  Claim C1, as the specification has it: at every acquisition attempt the
  refill step adds \<open>floor(elapsed / refillInterval)\<close> tokens, caps the count at
  \<open>maxTokens\<close>, and moves the last-refill timestamp forward by the whole
  intervals consumed, carrying the fraction over. The first two parts hold.
  The third does not: the source assigns \<open>rl.lastRefill = now\<close>. With an
  interval of 100, a last refill at 0 and the clock at 250, two tokens are
  added and the timestamp becomes 250, not 200.
\<close>

theorem refill_whole_intervals_counterexample:
  "refill \<lparr>tokens = 0, maxTokens = 10, refillRate = 100, lastRefill = 0\<rparr> 250
     = Some \<lparr>tokens = 2, maxTokens = 10, refillRate = 100, lastRefill = 250\<rparr>
   \<and> lastRefill \<lparr>tokens = 2, maxTokens = 10, refillRate = 100, lastRefill = 250\<rparr>
       \<noteq> lastRefill \<lparr>tokens = 0, maxTokens = 10, refillRate = 100, lastRefill = 0\<rparr>
          + (time_Sub 250 (lastRefill \<lparr>tokens = 0, maxTokens = 10, refillRate = 100, lastRefill = 0\<rparr>)
             div refillRate \<lparr>tokens = 0, maxTokens = 10, refillRate = 100, lastRefill = 0\<rparr>)
            * refillRate \<lparr>tokens = 0, maxTokens = 10, refillRate = 100, lastRefill = 0\<rparr>"
  by (simp add: refill_def time_Sub_def maxDuration_def minDuration_def wrap64_def
      signed_divide_int_def)

text \<open>
  Claim C1, amended: for a rate limiter as the program builds them and a clock
  that has not gone back, the refill step adds
  \<open>n = floor(elapsed / refillInterval)\<close> tokens, capped at \<open>maxTokens\<close>, and,
  when \<open>n\<close> is positive, sets the last-refill timestamp to the current time, so
  the fraction of an interval that has elapsed beyond the \<open>n\<close> whole ones is
  dropped; when no whole interval has elapsed the limiter is unchanged.
\<close>

theorem refill_restarts_at_now:
  assumes wf: "rl_wf rl" and le: "lastRefill rl \<le> now"
  shows "refill rl now =
           Some (let n = time_Sub now (lastRefill rl) div refillRate rl in
                 if 0 < n
                 then rl\<lparr>tokens := min (maxTokens rl) (tokens rl + n), lastRefill := now\<rparr>
                 else rl)"
proof -
  let ?d = "time_Sub now (lastRefill rl)"
  let ?r = "refillRate rl"
  have r: "0 < ?r" and t: "0 \<le> tokens rl" "tokens rl \<le> maxTokens rl"
    and cap: "maxTokens rl + maxDuration div ?r \<le> maxDuration"
    using wf by (simp_all add: rl_wf_def)
  have d: "0 \<le> ?d" "?d < 2 ^ 63"
    using le time_Sub_nonneg time_Sub_bounds by simp_all
  note n = tokensToAdd_nonneg [OF d r]
  have "tokens rl + ?d div ?r \<le> maxDuration" using t cap n(3) by linarith
  then have "wrap64 (tokens rl + ?d div ?r) = tokens rl + ?d div ?r"
    using t n(2) by (intro wrap64_id) (simp_all add: maxDuration_def)
  then show ?thesis using r n(1) by (simp add: refill_def Let_def)
qed

theorem refill_restarts_at_now_witness:
  "rl_wf \<lparr>tokens = 0, maxTokens = 10, refillRate = 100, lastRefill = 0\<rparr>
   \<and> refill \<lparr>tokens = 0, maxTokens = 10, refillRate = 100, lastRefill = 0\<rparr> 250
       = Some \<lparr>tokens = 2, maxTokens = 10, refillRate = 100, lastRefill = 250\<rparr>"
proof -
  have wf: "rl_wf \<lparr>tokens = 0, maxTokens = 10, refillRate = 100, lastRefill = 0\<rparr>"
    by (simp add: rl_wf_def maxDuration_def)
  have le: "lastRefill \<lparr>tokens = 0, maxTokens = 10, refillRate = 100, lastRefill = 0\<rparr> \<le> 250"
    by simp
  show ?thesis
    using wf refill_restarts_at_now [OF wf le]
    by (simp add: time_Sub_def maxDuration_def minDuration_def)
qed

subsection \<open>C2: the limit is not sent\<close>

text \<open>
  Claim C2: the request sent to the backend and the number of results returned
  do not depend on \<open>Limit\<close>. Changing \<open>Limit\<close> changes neither the URL that
  \<open>buildSearchURL\<close> builds, nor the JSON request, nor anything \<open>Search\<close> and
  \<open>SearchJSON\<close> do and return (their events carry every request sent); and
  the normalized response has as many results as the payload.
\<close>

theorem limit_is_not_sent:
  "buildSearchURL e cfg (req\<lparr>Limit := l\<rparr>) = buildSearchURL e cfg req
   \<and> apiReq (req\<lparr>Limit := l\<rparr>) = apiReq req
   \<and> Search e c (req\<lparr>Limit := l\<rparr>) = Search e c req
   \<and> SearchJSON e c (req\<lparr>Limit := l\<rparr>) = SearchJSON e c req
   \<and> len (rs_Results (toSearchResponse parse r)) = len (api_Results r)"
  by (simp only: buildSearchURL_Limit apiReq_Limit Search_Limit SearchJSON_Limit
      len_toSearchResponse simp_thms)

subsection \<open>C3: sequences missing from the payload\<close>

text \<open>
  Claim C3: a sequence field missing from the payload is an empty sequence in
  the normalized response, never nil. \<open>toSearchResponse\<close> does this for the
  results, which it allocates, and copies the other five slices as they are:
  on the payload without sequence fields the results are empty and not nil,
  and answers, corrections, suggestions, infoboxes and unresponsive engines
  are nil.
\<close>

theorem missing_sequences_stay_nil:
  "rs_Results (toSearchResponse parse bare_payload) = Some []
   \<and> rs_Answers (toSearchResponse parse bare_payload) = None
   \<and> rs_Corrections (toSearchResponse parse bare_payload) = None
   \<and> rs_Suggestions (toSearchResponse parse bare_payload) = None
   \<and> rs_Infoboxes (toSearchResponse parse bare_payload) = None
   \<and> rs_UnresponsiveEngines (toSearchResponse parse bare_payload) = None"
  by (simp add: toSearchResponse_def bare_payload_def elems_def)

subsection \<open>C4: limit and page defaults\<close>

text \<open>
  Claim C4: the effective limit is 5 for a non-positive limit, 20 for a limit
  above 20 and the limit itself otherwise, so always between 1 and 20; the
  effective page is 1 for a non-positive page and the page itself otherwise,
  so always at least 1. \<open>applyDefaults\<close> is the block that opens both \<open>Search\<close>
  and \<open>SearchJSON\<close>.
\<close>

theorem applyDefaults_clamps:
  "Limit (applyDefaults req) = (if Limit req \<le> 0 then 5 else if 20 < Limit req then 20 else Limit req)
   \<and> 1 \<le> Limit (applyDefaults req) \<and> Limit (applyDefaults req) \<le> 20
   \<and> Page (applyDefaults req) = (if Page req \<le> 0 then 1 else Page req)
   \<and> 1 \<le> Page (applyDefaults req)
   \<and> Limit (applyDefaults (req\<lparr>Limit := 0\<rparr>)) = 5
   \<and> Limit (applyDefaults (req\<lparr>Limit := 25\<rparr>)) = 20
   \<and> Limit (applyDefaults (req\<lparr>Limit := - 3\<rparr>)) = 5
   \<and> Page (applyDefaults (req\<lparr>Page := 0\<rparr>)) = 1"
  by (simp add: applyDefaults_def Let_def)

subsection \<open>C7: cancellation while waiting for a token\<close>

text \<open>
  Claim C7: when the context is done while a caller waits in the rate limiter,
  \<open>wait\<close> returns the context's error and takes no token, and \<open>Search\<close> (and
  \<open>SearchJSON\<close>) fail with \<open>ErrTimeout\<close> wrapping that error without any
  network call. Three parts: whenever \<open>wait\<close> returns the cancellation the
  token count is what it was; \<open>wait\<close> does return it when the limiter is empty,
  no interval elapses while the caller waits and the \<open>select\<close> then takes the
  context's case; and the search functions turn it into the timeout failure
  with no event at all.
\<close>

theorem cancelled_wait_takes_no_token:
  "(rl_wf rl \<and> wait rl schedule = Some (Cancelled err, rl') \<longrightarrow> tokens rl' = tokens rl)
   \<and> (0 < refillRate rl \<and> tokens rl \<le> 0
        \<and> (\<forall>t\<in>set pre. snd t = TimerFired \<and> time_Sub (fst t) (lastRefill rl) < refillRate rl)
        \<and> time_Sub now (lastRefill rl) < refillRate rl
       \<longrightarrow> wait rl (pre @ (now, CtxDone err) # post) = Some (Cancelled err, rl))
   \<and> (wait (rateLimiter c) (ticks e) = Some (Cancelled err, rl')
       \<longrightarrow> Search e c req = Some (Failure (wrap2 ErrTimeout err), rl', [])
           \<and> SearchJSON e c req = Some (Failure (wrap2 ErrTimeout err), rl', [])
           \<and> errors_Is (wrap2 ErrTimeout err) ErrTimeout)"
proof (intro conjI impI)
  assume "rl_wf rl \<and> wait rl schedule = Some (Cancelled err, rl')"
  then show "tokens rl' = tokens rl" using wait_cancelled_tokens by blast
next
  assume "0 < refillRate rl \<and> tokens rl \<le> 0
        \<and> (\<forall>t\<in>set pre. snd t = TimerFired \<and> time_Sub (fst t) (lastRefill rl) < refillRate rl)
        \<and> time_Sub now (lastRefill rl) < refillRate rl"
  then show "wait rl (pre @ (now, CtxDone err) # post) = Some (Cancelled err, rl)"
    by (intro wait_cancel_fires) simp_all
next
  assume "wait (rateLimiter c) (ticks e) = Some (Cancelled err, rl')"
  then show "Search e c req = Some (Failure (wrap2 ErrTimeout err), rl', [])"
    by (rule Search_cancelled)
next
  assume "wait (rateLimiter c) (ticks e) = Some (Cancelled err, rl')"
  then show "SearchJSON e c req = Some (Failure (wrap2 ErrTimeout err), rl', [])"
    by (rule SearchJSON_cancelled)
next
  show "errors_Is (wrap2 ErrTimeout err) ErrTimeout" by (rule Is_wrap2_left)
qed

theorem cancelled_wait_takes_no_token_witness:
  "rl_wf (rateLimiter (mock_client 0))
   \<and> wait (rateLimiter (mock_client 0))
        [(50 * Millisecond, TimerFired), (80 * Millisecond, CtxDone Canceled)]
       = Some (Cancelled Canceled, rateLimiter (mock_client 0))
   \<and> Search (mock_env [(50 * Millisecond, TimerFired), (80 * Millisecond, CtxDone Canceled)] always_500)
        (mock_client 0) \<lparr>Query = ''test'', Limit = 0, Page = 0, TimeRange = [], Category = [],
                         Language = [], Engines = None\<rparr>
       = Some (Failure (wrap2 ErrTimeout Canceled), rateLimiter (mock_client 0), [])"
proof -
  let ?rl = "rateLimiter (mock_client 0)"
  let ?pre = "[(50 * Millisecond, TimerFired)]"
  let ?s = "[(50 * Millisecond, TimerFired), (80 * Millisecond, CtxDone Canceled)]"
  let ?e = "mock_env ?s always_500"
  let ?req = "\<lparr>Query = ''test'', Limit = 0, Page = 0, TimeRange = [], Category = [],
               Language = [], Engines = None\<rparr>"
  note inst = cancelled_wait_takes_no_token
    [of ?rl ?s Canceled ?rl ?pre "80 * Millisecond" "[]" "mock_client 0" ?e ?req]
  have wf: "rl_wf ?rl"
    by (simp add: rl_wf_def mock_client_def maxDuration_def Millisecond_def)
  have pre: "0 < refillRate ?rl \<and> tokens ?rl \<le> 0
      \<and> (\<forall>t\<in>set ?pre. snd t = TimerFired \<and> time_Sub (fst t) (lastRefill ?rl) < refillRate ?rl)
      \<and> time_Sub (80 * Millisecond) (lastRefill ?rl) < refillRate ?rl"
    by (simp add: mock_client_def time_Sub_def maxDuration_def minDuration_def Millisecond_def)
  have w: "wait ?rl ?s = Some (Cancelled Canceled, ?rl)"
    using inst pre by simp
  have t: "ticks ?e = ?s" by (simp add: mock_env_def)
  show ?thesis using inst wf w t by simp
qed

subsection \<open>C5: retries run out\<close>

text \<open>
  Claim C5: when every attempt fails with an error that is neither a
  cancellation nor a deadline, \<open>Search\<close> makes exactly \<open>MaxRetries + 1\<close>
  attempts, sleeps \<open>n\<close> seconds before the attempt numbered \<open>n\<close> (1, 2, 3, ...)
  and not before the first, and returns \<open>ErrRequestFailed\<close> wrapping the error
  of the last attempt; when the backend answers HTTP 500 the message reads
  "search request failed: HTTP 500: ..." with the response body. The events of
  the call are exactly those of the attempts 0 to \<open>MaxRetries\<close>, each preceded
  by its sleep; each attempt sends one request when the request can be built.
  The hypotheses: the rate limiter lets the call through, the URL can be built,
  and \<open>MaxRetries\<close> is not negative and small enough for its number of seconds
  to be a \<open>Duration\<close>.
\<close>

theorem Search_exhausts_retries:
  assumes acq: "wait (rateLimiter c) (ticks e) = Some (Acquired, rl)"
    and url: "buildSearchURL e (config c) (applyDefaults req) = Inr apiURL"
    and m: "0 \<le> MaxRetries (config c)" "MaxRetries (config c) \<le> 9223372036"
    and fail: "\<forall>n\<le>nat (MaxRetries (config c)).
                 \<exists>err. fst (doSearchRequest e (config c) n apiURL) = Inl err \<and> retried err"
  shows "\<exists>last evs.
           fst (doSearchRequest e (config c) (nat (MaxRetries (config c))) apiURL) = Inl last
         \<and> Search e c req = Some (Failure (wrap2 ErrRequestFailed last), rl, evs)
         \<and> evs = attempts_events (\<lambda>n. doSearchRequest e (config c) n apiURL) 0
                    (nat (MaxRetries (config c)) + 1)
         \<and> sleeps evs = map (\<lambda>n. int n * Second) [1..<nat (MaxRetries (config c)) + 1]
         \<and> (NewRequest e ''GET'' apiURL = None
              \<longrightarrow> length (calls evs) = nat (MaxRetries (config c)) + 1)
         \<and> Error (wrap2 ErrRequestFailed last) = ''search request failed: '' @ Error last
         \<and> errors_Is (wrap2 ErrRequestFailed last) ErrRequestFailed
         \<and> errors_Is (wrap2 ErrRequestFailed last) last
         \<and> (NewRequest e ''GET'' apiURL = None
              \<and> (\<forall>r. Do e (nat (MaxRetries (config c))) r = Inr \<lparr>StatusCode = 500, Body = b\<rparr>)
              \<longrightarrow> Error (wrap2 ErrRequestFailed last) = ''search request failed: HTTP 500: '' @ b)"
proof -
  let ?m = "MaxRetries (config c)"
  let ?d = "\<lambda>n. doSearchRequest e (config c) n apiURL"
  let ?evs = "attempts_events ?d 0 (nat ?m + 1)"
  obtain last where last: "fst (?d (nat ?m)) = Inl last" using fail by auto
  have "retryLoop ?d ?m 0 None =
      (Failure (wrap2_opt ErrRequestFailed
                 (if 0 \<le> ?m then (case fst (?d (nat ?m)) of Inl err \<Rightarrow> Some err | Inr r \<Rightarrow> None)
                  else None)),
       attempts_events ?d (nat 0) (nat (?m + 1)))"
    using m fail by (intro retryLoop_all_fail) simp_all
  then have loop: "retryLoop ?d ?m 0 None = (Failure (wrap2 ErrRequestFailed last), ?evs)"
    using m last by (simp add: wrap2_opt_def nat_add_distrib)
  have s: "Search e c req = Some (Failure (wrap2 ErrRequestFailed last), rl, ?evs)"
    using Search_retry [OF acq url] loop by simp
  have sl: "sleeps ?evs = map (\<lambda>n. int n * Second) [1..<nat ?m + 1]"
    by (intro sleeps_attempts_from_0) (simp add: sleeps_doSearchRequest)
  have ca: "NewRequest e ''GET'' apiURL = None \<longrightarrow> length (calls ?evs) = nat ?m + 1"
    using calls_attempts_events [of ?d 0 "Suc (nat ?m)"] by (simp add: calls_doSearchRequest)
  have h500: "NewRequest e ''GET'' apiURL = None
       \<and> (\<forall>r. Do e (nat ?m) r = Inr \<lparr>StatusCode = 500, Body = b\<rparr>)
       \<longrightarrow> Error (wrap2 ErrRequestFailed last) = ''search request failed: HTTP 500: '' @ b"
  proof
    assume a: "NewRequest e ''GET'' apiURL = None
       \<and> (\<forall>r. Do e (nat ?m) r = Inr \<lparr>StatusCode = 500, Body = b\<rparr>)"
    then have "fst (?d (nat ?m)) = Inl (ErrorString (''HTTP '' @ Itoa 500 @ '': '' @ b))"
      by (intro doSearchRequest_status) simp_all
    then have "last = ErrorString (''HTTP 500: '' @ b)" using last by (simp add: Itoa_500)
    then show "Error (wrap2 ErrRequestFailed last) = ''search request failed: HTTP 500: '' @ b"
      by (simp add: Error_wrap2)
  qed
  show ?thesis
    using last s sl ca h500
    by (intro exI [of _ last] exI [of _ ?evs]) (simp add: Error_wrap2 Is_wrap2_left Is_wrap2_right)
qed

theorem Search_exhausts_retries_witness:
  "\<exists>last evs rl.
     Search (mock_env [(0, TimerFired)] always_500) (mock_client 10)
       \<lparr>Query = ''test'', Limit = 0, Page = 0, TimeRange = [], Category = [], Language = [],
        Engines = None\<rparr>
       = Some (Failure (wrap2 ErrRequestFailed last), rl, evs)
     \<and> sleeps evs = [1000000000, 2000000000, 3000000000]
     \<and> length (calls evs) = 4
     \<and> Error (wrap2 ErrRequestFailed last)
         = ''search request failed: HTTP 500: Internal Server Error''"
proof -
  let ?e = "mock_env [(0, TimerFired)] always_500"
  let ?c = "mock_client 10"
  let ?req = "\<lparr>Query = ''test'', Limit = 0, Page = 0, TimeRange = [], Category = [],
               Language = [], Engines = None\<rparr>"
  let ?rl = "\<lparr>tokens = 9, maxTokens = 10, refillRate = 100 * Millisecond, lastRefill = 0\<rparr>"
  let ?u = "''https://searxng.example.com/search?format=json&q=test''"
  have acq: "wait (rateLimiter ?c) (ticks ?e) = Some (Acquired, ?rl)"
    by (simp add: mock_client_def mock_env_def refill_def time_Sub_def maxDuration_def
        minDuration_def wrap64_def signed_divide_int_def Millisecond_def)
  have cfg: "config ?c = DefaultConfig" by (simp add: mock_client_def)
  have "buildSearchURL ?e DefaultConfig (applyDefaults ?req) = Inr ?u" by code_simp
  then have url: "buildSearchURL ?e (config ?c) (applyDefaults ?req) = Inr ?u" by (simp only: cfg)
  have m: "MaxRetries (config ?c) = 3" by (simp add: cfg DefaultConfig_def)
  have new: "NewRequest ?e ''GET'' ?u = None" by (simp add: mock_env_def)
  have backend: "\<forall>r. Do ?e n r = Inr \<lparr>StatusCode = 500, Body = ''Internal Server Error''\<rparr>" for n
    by (simp add: mock_env_def always_500_def)
  have fail: "\<forall>n\<le>nat (MaxRetries (config ?c)).
      \<exists>err. fst (doSearchRequest ?e (config ?c) n ?u) = Inl err \<and> retried err"
    using doSearchRequest_status [where s = 500, OF new backend] retried_ErrorString by simp
  have m0: "0 \<le> MaxRetries (config ?c)" and m9: "MaxRetries (config ?c) \<le> 9223372036"
    by (simp_all add: m)
  have upt: "[1..<nat (MaxRetries (config ?c)) + 1] = [1, 2, 3]" unfolding m by code_simp
  from Search_exhausts_retries [OF acq url m0 m9 fail, where b = "''Internal Server Error''"]
  show ?thesis
  proof (elim exE conjE)
    fix last evs
    assume r: "Search ?e ?c ?req = Some (Failure (wrap2 ErrRequestFailed last), ?rl, evs)"
      and sl: "sleeps evs = map (\<lambda>n. int n * Second) [1..<nat (MaxRetries (config ?c)) + 1]"
      and ca: "NewRequest ?e ''GET'' ?u = None
               \<longrightarrow> length (calls evs) = nat (MaxRetries (config ?c)) + 1"
      and h500: "NewRequest ?e ''GET'' ?u = None
           \<and> (\<forall>r. Do ?e (nat (MaxRetries (config ?c))) r
                    = Inr \<lparr>StatusCode = 500, Body = ''Internal Server Error''\<rparr>)
         \<longrightarrow> Error (wrap2 ErrRequestFailed last)
              = ''search request failed: HTTP 500: '' @ ''Internal Server Error''"
    have s: "sleeps evs = [1000000000, 2000000000, 3000000000]"
      using sl upt by (simp add: Second_def)
    have c4: "length (calls evs) = 4" using ca new m by simp
    have msg: "Error (wrap2 ErrRequestFailed last)
        = ''search request failed: HTTP 500: Internal Server Error''"
      using h500 new backend by simp
    show ?thesis using r s c4 msg by blast
  qed
qed

subsection \<open>C6: cancellation ends the retries\<close>

text \<open>
  Claim C6: when an attempt of the retry loop of \<open>Search\<close> or \<open>SearchJSON\<close>
  fails with an error that is a cancellation or a deadline, that error is
  returned as it is, at once: the events of the call are those of the attempts
  up to this one, with the sleeps before the retries among them and nothing
  after, whatever \<open>MaxRetries\<close> leaves. The attempt is the one numbered \<open>k\<close>,
  reached because the attempts before it failed with errors that are retried.
\<close>

theorem cancellation_ends_retries:
  assumes acq: "wait (rateLimiter c) (ticks e) = Some (Acquired, rl)"
    and k: "int k \<le> MaxRetries (config c)" "int k \<le> 9223372036"
    and cancel: "errors_Is err Canceled \<or> errors_Is err DeadlineExceeded"
  shows "(buildSearchURL e (config c) (applyDefaults req) = Inr apiURL
          \<and> (\<forall>n<k. \<exists>err'. fst (doSearchRequest e (config c) n apiURL) = Inl err' \<and> retried err')
          \<and> fst (doSearchRequest e (config c) k apiURL) = Inl err
          \<longrightarrow> Search e c req
                = Some (Failure err, rl,
                        attempts_events (\<lambda>n. doSearchRequest e (config c) n apiURL) 0 (k + 1))
              \<and> sleeps (attempts_events (\<lambda>n. doSearchRequest e (config c) n apiURL) 0 (k + 1))
                = map (\<lambda>n. int n * Second) [1..<k + 1])
       \<and> (url_Parse e (BaseURL (config c)) = Inr baseURL
          \<and> json_Marshal e (apiReq (applyDefaults req)) = Inr body
          \<and> (\<forall>n<k. \<exists>err'. fst (doSearchJSONRequest e (config c) n (resolve_search e baseURL) body)
                              = Inl err' \<and> retried err')
          \<and> fst (doSearchJSONRequest e (config c) k (resolve_search e baseURL) body) = Inl err
          \<longrightarrow> SearchJSON e c req
                = Some (Failure err, rl,
                        attempts_events
                          (\<lambda>n. doSearchJSONRequest e (config c) n (resolve_search e baseURL) body)
                          0 (k + 1))
              \<and> sleeps (attempts_events
                          (\<lambda>n. doSearchJSONRequest e (config c) n (resolve_search e baseURL) body)
                          0 (k + 1))
                = map (\<lambda>n. int n * Second) [1..<k + 1])"
proof -
  have nr: "\<not> retried err" using cancel by (auto simp: retried_def)
  have stop: "retryLoop d (MaxRetries (config c)) 0 None = (Failure err, attempts_events d 0 (k + 1))"
    if "\<forall>n<k. \<exists>err'. fst (d n) = Inl err' \<and> retried err'" and "fst (d k) = Inl err" for d
    using retryLoop_stops [where d = d and a = 0 and k = k and m = "MaxRetries (config c)", OF _ _ k(1) k(2) _ that(2) nr]
      that(1) by simp
  show ?thesis
  proof (intro conjI impI)
    assume a: "buildSearchURL e (config c) (applyDefaults req) = Inr apiURL
          \<and> (\<forall>n<k. \<exists>err'. fst (doSearchRequest e (config c) n apiURL) = Inl err' \<and> retried err')
          \<and> fst (doSearchRequest e (config c) k apiURL) = Inl err"
    then show "Search e c req
                = Some (Failure err, rl,
                        attempts_events (\<lambda>n. doSearchRequest e (config c) n apiURL) 0 (k + 1))"
      using Search_retry [OF acq, of req apiURL] stop [of "\<lambda>n. doSearchRequest e (config c) n apiURL"]
      by simp
  next
    show "sleeps (attempts_events (\<lambda>n. doSearchRequest e (config c) n apiURL) 0 (k + 1))
                = map (\<lambda>n. int n * Second) [1..<k + 1]"
      by (intro sleeps_attempts_from_0) (simp add: sleeps_doSearchRequest)
  next
    assume a: "url_Parse e (BaseURL (config c)) = Inr baseURL
          \<and> json_Marshal e (apiReq (applyDefaults req)) = Inr body
          \<and> (\<forall>n<k. \<exists>err'. fst (doSearchJSONRequest e (config c) n (resolve_search e baseURL) body)
                              = Inl err' \<and> retried err')
          \<and> fst (doSearchJSONRequest e (config c) k (resolve_search e baseURL) body) = Inl err"
    then show "SearchJSON e c req
                = Some (Failure err, rl,
                        attempts_events
                          (\<lambda>n. doSearchJSONRequest e (config c) n (resolve_search e baseURL) body)
                          0 (k + 1))"
      using SearchJSON_retry [OF acq, of baseURL req body]
        stop [of "\<lambda>n. doSearchJSONRequest e (config c) n (resolve_search e baseURL) body"]
      by simp
  next
    show "sleeps (attempts_events
                          (\<lambda>n. doSearchJSONRequest e (config c) n (resolve_search e baseURL) body)
                          0 (k + 1))
                = map (\<lambda>n. int n * Second) [1..<k + 1]"
      by (intro sleeps_attempts_from_0) (simp add: sleeps_doSearchJSONRequest)
  qed
qed

theorem cancellation_ends_retries_witness:
  "\<exists>evs.
     Search (mock_env [(0, TimerFired)] (cancelled_at 1)) (mock_client 10)
       \<lparr>Query = ''test'', Limit = 0, Page = 0, TimeRange = [], Category = [], Language = [],
        Engines = None\<rparr>
       = Some (Failure
                 (wrap1 ''HTTP request failed: ''
                    (Errorf ''Get https://searxng.example.com/search?format=json&q=test: context canceled''
                       [Canceled])),
               \<lparr>tokens = 9, maxTokens = 10, refillRate = 100 * Millisecond, lastRefill = 0\<rparr>,
               evs)
     \<and> sleeps evs = [1000000000]
     \<and> length (calls evs) = 2"
proof -
  let ?e = "mock_env [(0, TimerFired)] (cancelled_at 1)"
  let ?c = "mock_client 10"
  let ?req = "\<lparr>Query = ''test'', Limit = 0, Page = 0, TimeRange = [], Category = [],
               Language = [], Engines = None\<rparr>"
  let ?rl = "\<lparr>tokens = 9, maxTokens = 10, refillRate = 100 * Millisecond, lastRefill = 0\<rparr>"
  let ?u = "''https://searxng.example.com/search?format=json&q=test''"
  let ?err = "wrap1 ''HTTP request failed: ''
                (Errorf ''Get https://searxng.example.com/search?format=json&q=test: context canceled''
                   [Canceled])"
  let ?d = "\<lambda>n. doSearchRequest ?e (config ?c) n ?u"
  have acq: "wait (rateLimiter ?c) (ticks ?e) = Some (Acquired, ?rl)"
    by (simp add: mock_client_def mock_env_def refill_def time_Sub_def maxDuration_def
        minDuration_def wrap64_def signed_divide_int_def Millisecond_def)
  have cfg: "config ?c = DefaultConfig" by (simp add: mock_client_def)
  have "buildSearchURL ?e DefaultConfig (applyDefaults ?req) = Inr ?u" by code_simp
  then have url: "buildSearchURL ?e (config ?c) (applyDefaults ?req) = Inr ?u" by (simp only: cfg)
  have k: "int 1 \<le> MaxRetries (config ?c)" "int 1 \<le> 9223372036"
    by (simp_all add: cfg DefaultConfig_def)
  have cancel: "errors_Is ?err Canceled \<or> errors_Is ?err DeadlineExceeded"
    by (simp add: wrap1_def)
  have new: "NewRequest ?e ''GET'' ?u = None" by (simp add: mock_env_def)
  have first: "\<forall>r. Do ?e 0 r = Inr \<lparr>StatusCode = 500, Body = ''Internal Server Error''\<rparr>"
    by (simp add: mock_env_def cancelled_at_def)
  have before: "\<forall>n<1. \<exists>err'. fst (?d n) = Inl err' \<and> retried err'"
    using doSearchRequest_status [where s = 500 and n = 0, OF new first] retried_ErrorString by simp
  have at: "fst (?d 1) = Inl ?err"
    by (simp add: doSearchRequest_def mock_env_def cancelled_at_def)
  have "Search ?e ?c ?req = Some (Failure ?err, ?rl, attempts_events ?d 0 (1 + 1))
      \<and> sleeps (attempts_events ?d 0 (1 + 1)) = map (\<lambda>n. int n * Second) [1..<1 + 1]"
    using cancellation_ends_retries [OF acq k cancel, where req = ?req and apiURL = ?u]
      url before at by blast
  moreover have "length (calls (attempts_events ?d 0 (1 + 1))) = (1 + 1) - 0"
    by (intro calls_attempts_events allI calls_doSearchRequest new)
  ultimately show ?thesis by (intro exI [of _ "attempts_events ?d 0 (1 + 1)"]) (simp add: Second_def)
qed

subsection \<open>C8: the published date\<close>

text \<open>
  Claim C8: \<open>parsePublishedDate\<close> tries exactly four formats in order (the
  RFC 3339 timestamp with its zone, the timestamp ending in a literal \<open>Z\<close>, date
  and time separated by a space, the date alone) and returns the first
  successful parse, or nothing when the input is empty or no format matches.
  Stated for every \<open>time.Parse\<close>: the result is \<open>t\<close> exactly when the input is
  not empty and some format parses to \<open>t\<close> while all formats before it fail; it
  is absent exactly when the input is empty or all four fail. With the model
  of \<open>time.Parse\<close> on these layouts, \<open>2024-01-15T10:30:00Z\<close> and \<open>2024-01-15\<close>
  give the year 2024, and the empty string and \<open>not-a-date\<close> give nothing.
\<close>

theorem parsePublishedDate_first_format:
  "formats = [''2006-01-02T15:04:05Z07:00'', ''2006-01-02T15:04:05Z'', ''2006-01-02 15:04:05'',
              ''2006-01-02'']
   \<and> (parsePublishedDate parse dateStr = Some t \<longleftrightarrow>
        dateStr \<noteq> []
        \<and> (\<exists>i<length formats. parse (formats ! i) dateStr = Inr t
              \<and> (\<forall>j<i. \<exists>err. parse (formats ! j) dateStr = Inl err)))
   \<and> (parsePublishedDate parse dateStr = None \<longleftrightarrow>
        dateStr = [] \<or> (\<forall>i<length formats. \<exists>err. parse (formats ! i) dateStr = Inl err))
   \<and> map_option Year (parsePublishedDate go_time_Parse ''2024-01-15T10:30:00Z'') = Some 2024
   \<and> map_option Year (parsePublishedDate go_time_Parse ''2024-01-15'') = Some 2024
   \<and> parsePublishedDate go_time_Parse [] = None
   \<and> parsePublishedDate go_time_Parse ''not-a-date'' = None"
proof (intro conjI)
  show "formats = [''2006-01-02T15:04:05Z07:00'', ''2006-01-02T15:04:05Z'', ''2006-01-02 15:04:05'',
              ''2006-01-02'']"
    by (rule formats_strings)
  show "parsePublishedDate parse dateStr = Some t \<longleftrightarrow>
        dateStr \<noteq> []
        \<and> (\<exists>i<length formats. parse (formats ! i) dateStr = Inr t
              \<and> (\<forall>j<i. \<exists>err. parse (formats ! j) dateStr = Inl err))"
    by (simp add: parsePublishedDate_def tryFormats_Some)
  show "parsePublishedDate parse dateStr = None \<longleftrightarrow>
        dateStr = [] \<or> (\<forall>i<length formats. \<exists>err. parse (formats ! i) dateStr = Inl err)"
    by (simp add: parsePublishedDate_def tryFormats_None)
  show "map_option Year (parsePublishedDate go_time_Parse ''2024-01-15T10:30:00Z'') = Some 2024"
    by (rule parse_example_rfc3339)
  show "map_option Year (parsePublishedDate go_time_Parse ''2024-01-15'') = Some 2024"
    by (rule parse_example_date_only)
  show "parsePublishedDate go_time_Parse [] = None"
    by (simp add: parsePublishedDate_def)
  show "parsePublishedDate go_time_Parse ''not-a-date'' = None"
    by (rule parse_example_not_a_date)
qed

theorem parsePublishedDate_first_format_witness:
  "parsePublishedDate go_time_Parse ''2024-01-15''
     = Some \<lparr>t_year = 2024, t_month = 1, t_day = 15, t_hour = 0, t_minute = 0, t_second = 0,
             t_nsec = 0, t_offset = None\<rparr>
   \<and> (\<exists>i<length formats.
         go_time_Parse (formats ! i) ''2024-01-15''
           = Inr \<lparr>t_year = 2024, t_month = 1, t_day = 15, t_hour = 0, t_minute = 0, t_second = 0,
                  t_nsec = 0, t_offset = None\<rparr>
         \<and> (\<forall>j<i. \<exists>err. go_time_Parse (formats ! j) ''2024-01-15'' = Inl err))"
proof -
  let ?t = "\<lparr>t_year = 2024, t_month = 1, t_day = 15, t_hour = 0, t_minute = 0, t_second = 0,
             t_nsec = 0, t_offset = None\<rparr>"
  have p: "parsePublishedDate go_time_Parse ''2024-01-15'' = Some ?t"
    by code_simp
  show ?thesis
    using p parsePublishedDate_first_format [of go_time_Parse "''2024-01-15''" ?t]
    by blast
qed

subsection \<open>C9: the Markdown post-processing\<close>

text \<open>
  Claim C9: in the output of \<open>cleanMarkdown\<close>, for every input, every line is
  free of white space at both ends, no three empty lines follow one another,
  and the document neither starts nor ends with an empty line. The lines of
  the output are those that splitting it at the newlines gives; an empty
  output is a document without lines.
\<close>

theorem cleanMarkdown_lines:
  "(\<forall>l\<in>set (Split (cleanMarkdown markdown)). trimmed l)
   \<and> no_three_blank (Split (cleanMarkdown markdown))
   \<and> (cleanMarkdown markdown \<noteq> []
        \<longrightarrow> hd (Split (cleanMarkdown markdown)) \<noteq> [] \<and> last (Split (cleanMarkdown markdown)) \<noteq> [])"
proof -
  obtain cleaned where c: "cleanMarkdown markdown = Join cleaned [newline]"
    "no_three_blank cleaned" "\<forall>l\<in>set cleaned. trimmed l \<and> newline \<notin> set l"
    "cleaned \<noteq> [] \<longrightarrow> hd cleaned \<noteq> [] \<and> last cleaned \<noteq> []"
    using cleanMarkdown_cleaned by blast
  show ?thesis
  proof (cases "cleaned = []")
    case True
    then have "cleanMarkdown markdown = []" using c(1) by simp
    then show ?thesis by (simp add: trimmed_Nil no_three_blank_def)
  next
    case False
    then have "Split (cleanMarkdown markdown) = cleaned"
      using c(1,3) by (simp add: Split_Join)
    then show ?thesis using c False by simp
  qed
qed

theorem cleanMarkdown_lines_witness:
  "Split (cleanMarkdown [CHR '' '', CHR ''a'', CHR '' '', newline, newline, newline, newline,
                         CHR 0x09, CHR ''b'', newline])
     = [''a'', [], [], ''b'']
   \<and> trimmed ''a'' \<and> trimmed ''b''
   \<and> no_three_blank [''a'', [], [], ''b'']"
proof -
  let ?md = "[CHR '' '', CHR ''a'', CHR '' '', newline, newline, newline, newline,
              CHR 0x09, CHR ''b'', newline]"
  have s: "Split (cleanMarkdown ?md) = [''a'', [], [], ''b'']" by code_simp
  show ?thesis using cleanMarkdown_lines [of ?md] unfolding s by simp
qed

subsection \<open>C10: a missing query\<close>

text \<open>
  Claim C10, as the specification has it: every invocation of \<open>web_search\<close>
  whose \<open>query\<close> argument is absent, empty or not a string gets the tool error
  "query is required", and the handler's error is nil. An invocation that
  carries no arguments at all (\<open>Arguments\<close> is the nil interface) has no
  \<open>query\<close> argument, and the handler answers it from its first check, with
  the tool error "invalid arguments format".
\<close>

theorem handleWebSearch_without_arguments_counterexample:
  "handleWebSearch (mock_env [] always_500) (mock_client 10) AnyNil
     = Some (Returned \<lparr>Content = [''invalid arguments format''], IsError = True\<rparr> None,
             rateLimiter (mock_client 10), [])
   \<and> \<lparr>Content = [''invalid arguments format''], IsError = True\<rparr>
       \<noteq> \<lparr>Content = [''query is required''], IsError = True\<rparr>"
  by (simp add: handleWebSearch_def NewToolResultError_def)

text \<open>
  Claim C10, amended: every invocation of \<open>web_search\<close> whose arguments are a
  mapping in which \<open>query\<close> is absent, empty or not a string gets the tool error
  "query is required", without a token taken from the rate limiter or a
  request sent; an invocation whose arguments are not a mapping gets the tool
  error "invalid arguments format"; and whenever the handler returns, its
  error is nil, so no invocation raises a protocol-level fault.
\<close>

theorem handleWebSearch_query_required:
  "((map_of args ''query'' = None
       \<or> map_of args ''query'' = Some (AnyString [])
       \<or> (\<exists>v. map_of args ''query'' = Some v \<and> (\<forall>s. v \<noteq> AnyString s)))
      \<longrightarrow> handleWebSearch e c (AnyMap args)
            = Some (Returned \<lparr>Content = [''query is required''], IsError = True\<rparr> None,
                    rateLimiter c, []))
   \<and> ((\<forall>args'. a \<noteq> AnyMap args')
      \<longrightarrow> handleWebSearch e c a
            = Some (Returned \<lparr>Content = [''invalid arguments format''], IsError = True\<rparr> None,
                    rateLimiter c, []))
   \<and> (handleWebSearch e c a = Some (Returned r err, rl, evs) \<longrightarrow> err = None)"
  using handleWebSearch_no_query [of args e c] handleWebSearch_not_a_map [of a e c]
    handleWebSearch_error_nil [of e c a r err rl evs]
  by (simp add: NewToolResultError_def)

theorem handleWebSearch_query_required_witness:
  "handleWebSearch (mock_env [] always_500) (mock_client 10) (AnyMap [(''limit'', AnyInt 5)])
     = Some (Returned \<lparr>Content = [''query is required''], IsError = True\<rparr> None,
             rateLimiter (mock_client 10), [])
   \<and> handleWebSearch (mock_env [] always_500) (mock_client 10) AnyNil
     = Some (Returned \<lparr>Content = [''invalid arguments format''], IsError = True\<rparr> None,
             rateLimiter (mock_client 10), [])"
proof -
  note inst = handleWebSearch_query_required
    [of "[(''limit'', AnyInt 5)]" "mock_env [] always_500" "mock_client 10" AnyNil]
  have h: "map_of [(''limit'', AnyInt 5)] ''query'' = None" by simp
  show ?thesis using inst h by simp
qed

end
